theory Spec2Isabelle
  imports Main
begin

section \<open>Statement trees\<close>

text \<open>
  The input of \<^verbatim>\<open>CGStmt.cpp\<close> is the body of one function, a tree of \<^verbatim>\<open>Stmt\<close> nodes.
  The dispatcher \<^verbatim>\<open>EmitStmt\<close> distinguishes the seven statement classes it names, expressions
  in statement position, and every other class (its \<^verbatim>\<open>default\<close> branch).

  The label table is keyed by the \<^verbatim>\<open>LabelStmt\<close> node, and a goto statement points to the node
  of its label: a \<open>label\<close> stands for that node, with its identity and the name of the label.
  A tree has no null nodes (the assertion at the head of \<^verbatim>\<open>EmitStmt\<close> cannot fail); an absent
  else branch and an absent return operand are \<open>None\<close>.
\<close>

datatype label = Label (label_node: nat) (label_name: string)

text \<open>
  Modelled from the spec: expressions and declarations are lowered by collaborators outside
  \<^verbatim>\<open>CGStmt.cpp\<close>, opaque to it.  An expression node carries what the expression
  collaborator produces for it: the code it emits (opaque instructions, none of them a
  terminator), whether its result is scalar, and its value.  A declaration statement carries
  the code emitted for it, and a statement of any other class the text that \<^verbatim>\<open>dump()\<close>
  prints for it.
\<close>

datatype Expr = Expr (expr_code: "nat list") (expr_scalar: bool) (expr_val: nat)

datatype Stmt =
    NullStmt
  | CompoundStmt "Stmt list"
  | LabelStmt label Stmt
  | GotoStmt label
  | IfStmt Expr Stmt "Stmt option"
  | ReturnStmt "Expr option"
  | DeclStmt "nat list"
  | ExprStmt Expr
  | OtherStmt string

section \<open>Instructions, basic blocks and the lowering context\<close>

text \<open>
  Modelled from the spec: the types, values, expression results and instructions of the
  target representation, as far as \<^verbatim>\<open>CGStmt.cpp\<close> tells them apart.  A type is void or not; a
  value is the value of an expression, an undefined value of a type, or the truth value of
  a scalar; an instruction is one of the four terminators that the file creates or an
  opaque instruction \<open>Op\<close> that is not a terminator.  A block handle is a natural number.
\<close>

datatype lltype = VoidTy | ValueTy nat

datatype val = Value nat | UndefValue lltype | NotZero val

datatype ExprResult = ExprResult (isScalar: bool) (getVal: val)

datatype inst =
    Op nat
  | Br nat
  | CondBr val nat nat
  | RetVoid
  | Ret val

fun isTerminator :: "inst \<Rightarrow> bool" where
  "isTerminator (Op _) = False"
| "isTerminator (Br _) = True"
| "isTerminator (CondBr _ _ _) = True"
| "isTerminator RetVoid = True"
| "isTerminator (Ret _) = True"

fun successors :: "inst \<Rightarrow> nat list" where
  "successors (Br b) = [b]"
| "successors (CondBr _ t e) = [t, e]"
| "successors _ = []"

record BasicBlock =
  bb_name :: string
  bb_insts :: "inst list"

text \<open>
  The failure of the lowering: \<^verbatim>\<open>assert(0 && "FIXME: aggregate return unimp")\<close> in
  \<^verbatim>\<open>EmitReturnStmt\<close>, which aborts when the file is compiled with assertions.
\<close>

datatype error = AggregateReturnUnimp

text \<open>
  The members of \<^verbatim>\<open>CodeGenFunction\<close> that \<^verbatim>\<open>CGStmt.cpp\<close> reads and writes.  Blocks are
  heap objects handled by pointer: \<open>Heap\<close> holds every block allocated so far, a handle is the
  position of the block in it, and a deleted block leaves \<open>None\<close> behind (handles are
  never reused; the source may reuse the address of a deleted block, which no one holds any
  more).  \<open>FnBlocks\<close> is \<^verbatim>\<open>CurFn->getBasicBlockList()\<close>, \<open>InsertBlock\<close> is
  \<^verbatim>\<open>Builder.GetInsertBlock()\<close>, \<open>LabelMap\<close> is the label table.  \<open>FnIsVoid\<close> is the outcome of
  the test \<^verbatim>\<open>CurFuncDecl->getType()->isVoidType()\<close>, which \<^verbatim>\<open>EmitReturnStmt\<close> reads as
  "the function returns void"; \<open>FnRetTy\<close> is \<^verbatim>\<open>CurFn->getFunctionType()->getReturnType()\<close>,
  the return type of the lowered function; \<open>Output\<close> is what has been printed.  \<open>NDEBUG\<close>
  is not a member: it records how the file was compiled.  With \<^verbatim>\<open>NDEBUG\<close> defined
  \<^verbatim>\<open>assert\<close> expands to nothing; without it a failing \<^verbatim>\<open>assert\<close> aborts.
\<close>

record CodeGenFunction =
  Heap :: "BasicBlock option list"
  FnBlocks :: "nat list"
  InsertBlock :: nat
  LabelMap :: "(label \<times> nat) list"
  FnIsVoid :: bool
  FnRetTy :: lltype
  Output :: "string list"
  NDEBUG :: bool

definition getBlock :: "CodeGenFunction \<Rightarrow> nat \<Rightarrow> BasicBlock option" where
  "getBlock \<sigma> b = (if b < length (Heap \<sigma>) then Heap \<sigma> ! b else None)"

subsection \<open>Blocks and the instruction builder\<close>

text \<open>
  The basic-block and builder operations that \<^verbatim>\<open>CGStmt.cpp\<close> calls are declared outside it;
  each is modelled from what the spec says of blocks and of the insertion cursor.
\<close>

text \<open>
  Modelled from the spec: \<^verbatim>\<open>BasicBlock::getTerminator\<close>.  A block is an ordered sequence of
  instructions; it ends in a terminator when its last instruction is one.
\<close>

definition getTerminator :: "BasicBlock \<Rightarrow> inst option" where
  "getTerminator B =
     (if bb_insts B = [] then None
      else if isTerminator (last (bb_insts B)) then Some (last (bb_insts B)) else None)"

text \<open>
  Modelled from the spec: \<^verbatim>\<open>new BasicBlock(Name)\<close> allocates an empty block that belongs to
  no function yet.  The empty name is no name (\<^verbatim>\<open>getValueName() == 0\<close>).  Only whether a
  block has a name matters to the lowering; that names are kept unique within a function is
  not modelled.
\<close>

definition new_BasicBlock :: "string \<Rightarrow> CodeGenFunction \<Rightarrow> nat \<times> CodeGenFunction" where
  "new_BasicBlock Name \<sigma> =
     (length (Heap \<sigma>), \<sigma>\<lparr>Heap := Heap \<sigma> @ [Some \<lparr>bb_name = Name, bb_insts = []\<rparr>]\<rparr>)"

text \<open>
  Modelled from the spec: \<^verbatim>\<open>new BasicBlock(Name, CurFn)\<close> allocates an empty block and
  appends it to the block list of the function.
\<close>

definition new_BasicBlock_in :: "string \<Rightarrow> CodeGenFunction \<Rightarrow> nat \<times> CodeGenFunction" where
  "new_BasicBlock_in Name \<sigma> =
     (let (BB, \<sigma>') = new_BasicBlock Name \<sigma> in (BB, \<sigma>'\<lparr>FnBlocks := FnBlocks \<sigma>' @ [BB]\<rparr>))"

text \<open>
  Modelled from the spec: the builder appends instructions at the end of the insertion block.
  Inserting through a handle whose block has been deleted is undefined in the source; the model
  leaves the state alone there (lemma \<open>EmitStmt_inv\<close> shows that the insertion block
  always exists).
\<close>

definition Insert :: "inst list \<Rightarrow> CodeGenFunction \<Rightarrow> CodeGenFunction" where
  "Insert Is \<sigma> =
     (case getBlock \<sigma> (InsertBlock \<sigma>) of
        None \<Rightarrow> \<sigma>
      | Some B \<Rightarrow> \<sigma>\<lparr>Heap := (Heap \<sigma>)[InsertBlock \<sigma> := Some (B\<lparr>bb_insts := bb_insts B @ Is\<rparr>)]\<rparr>)"

text \<open>
  Modelled from the spec: \<^verbatim>\<open>Builder.CreateBr\<close>, \<^verbatim>\<open>CreateCondBr\<close>, \<^verbatim>\<open>CreateRetVoid\<close> and
  \<^verbatim>\<open>CreateRet\<close> append one terminator each; \<^verbatim>\<open>Builder.SetInsertPoint\<close> moves the cursor.
\<close>

definition CreateBr :: "nat \<Rightarrow> CodeGenFunction \<Rightarrow> CodeGenFunction" where
  "CreateBr BB = Insert [Br BB]"

definition CreateCondBr :: "val \<Rightarrow> nat \<Rightarrow> nat \<Rightarrow> CodeGenFunction \<Rightarrow> CodeGenFunction" where
  "CreateCondBr C T E = Insert [CondBr C T E]"

definition CreateRetVoid :: "CodeGenFunction \<Rightarrow> CodeGenFunction" where
  "CreateRetVoid = Insert [RetVoid]"

definition CreateRet :: "val \<Rightarrow> CodeGenFunction \<Rightarrow> CodeGenFunction" where
  "CreateRet V = Insert [Ret V]"

definition SetInsertPoint :: "nat \<Rightarrow> CodeGenFunction \<Rightarrow> CodeGenFunction" where
  "SetInsertPoint BB \<sigma> = \<sigma>\<lparr>InsertBlock := BB\<rparr>"

text \<open>
  Modelled from the spec: \<^verbatim>\<open>BB->eraseFromParent()\<close> unlinks the block from the block list of
  its function and deletes it.
\<close>

definition eraseFromParent :: "nat \<Rightarrow> CodeGenFunction \<Rightarrow> CodeGenFunction" where
  "eraseFromParent BB \<sigma> =
     \<sigma>\<lparr>FnBlocks := removeAll BB (FnBlocks \<sigma>), Heap := (Heap \<sigma>)[BB := None]\<rparr>"

subsection \<open>Collaborators: expressions, declarations, labels\<close>

text \<open>
  Modelled from the spec: the expression collaborator \<^verbatim>\<open>EmitExpr\<close>.  It appends the code of the
  expression (instructions that are not terminators) to the insertion block and returns a
  result tagged scalar or aggregate.
\<close>

definition EmitExpr :: "Expr \<Rightarrow> CodeGenFunction \<Rightarrow> ExprResult \<times> CodeGenFunction" where
  "EmitExpr E \<sigma> =
     (ExprResult (expr_scalar E) (Value (expr_val E)), Insert (map Op (expr_code E)) \<sigma>)"

text \<open>
  Modelled from the spec: \<^verbatim>\<open>EvaluateScalarValueToBool\<close> compares the value with the zero of
  its type (one instruction that is not a terminator) and returns the truth value.
\<close>

definition EvaluateScalarValueToBool ::
    "ExprResult \<Rightarrow> CodeGenFunction \<Rightarrow> val \<times> CodeGenFunction" where
  "EvaluateScalarValueToBool R \<sigma> = (NotZero (getVal R), Insert [Op 0] \<sigma>)"

text \<open>
  Modelled from the spec: \<^verbatim>\<open>EmitDeclStmt\<close>, the lowering of local declarations, appends the
  code of the declaration (instructions that are not terminators) to the insertion block.
\<close>

definition EmitDeclStmt :: "nat list \<Rightarrow> CodeGenFunction \<Rightarrow> CodeGenFunction" where
  "EmitDeclStmt D \<sigma> = Insert (map Op D) \<sigma>"

text \<open>
  Modelled from the spec: \<^verbatim>\<open>getBasicBlockForLabel\<close> returns the block associated with the
  label, creating and recording an empty unplaced block on the first call if none exists yet.
  The block carries the name of the label.
\<close>

definition getBasicBlockForLabel :: "label \<Rightarrow> CodeGenFunction \<Rightarrow> nat \<times> CodeGenFunction" where
  "getBasicBlockForLabel L \<sigma> =
     (case map_of (LabelMap \<sigma>) L of
        Some BB \<Rightarrow> (BB, \<sigma>)
      | None \<Rightarrow>
          (let (BB, \<sigma>') = new_BasicBlock (label_name L) \<sigma>
           in (BB, \<sigma>'\<lparr>LabelMap := (L, BB) # LabelMap \<sigma>'\<rparr>)))"

section \<open>Statement emission\<close>

text \<open>
  The functions of \<^verbatim>\<open>CGStmt.cpp\<close>, each with the state of the \<^verbatim>\<open>CodeGenFunction\<close> passed in
  and returned.  \<^verbatim>\<open>EmitBlock\<close> (lines 59 to 76) looks at the block that was current: if it
  ends in a terminator it is left alone; if it is empty and has no name it is erased;
  otherwise it receives a branch to the new block.  Then the new block is appended to the
  function and becomes the insertion block.  The first case of the model is the undefined
  one of a deleted insertion block.
\<close>

definition EmitBlock :: "nat \<Rightarrow> CodeGenFunction \<Rightarrow> CodeGenFunction" where
  "EmitBlock BB \<sigma> =
     (let \<sigma>1 =
        (case getBlock \<sigma> (InsertBlock \<sigma>) of
           None \<Rightarrow> \<sigma>
         | Some LastBB \<Rightarrow>
             if getTerminator LastBB \<noteq> None then \<sigma>
             else if bb_insts LastBB = [] \<and> bb_name LastBB = [] then
               eraseFromParent (InsertBlock \<sigma>) \<sigma>
             else CreateBr BB \<sigma>)
      in SetInsertPoint BB (\<sigma>1\<lparr>FnBlocks := FnBlocks \<sigma>1 @ [BB]\<rparr>))"

text \<open>
  \<^verbatim>\<open>EmitGotoStmt\<close> (lines 85 to 91): a branch to the block of the label, then a new block
  without name in the function, for the dead code after the goto.
\<close>

definition EmitGotoStmt :: "label \<Rightarrow> CodeGenFunction \<Rightarrow> CodeGenFunction" where
  "EmitGotoStmt L \<sigma> =
     (let (Target, \<sigma>1) = getBasicBlockForLabel L \<sigma>;
          \<sigma>2 = CreateBr Target \<sigma>1;
          (BB, \<sigma>3) = new_BasicBlock_in [] \<sigma>2
      in SetInsertPoint BB \<sigma>3)"

text \<open>
  \<^verbatim>\<open>EmitReturnStmt\<close> (lines 132 to 160): the operand is evaluated first, if there is one;
  the four branches follow the source.  The last one is \<^verbatim>\<open>assert(0 && ...)\<close>: compiled with
  assertions it aborts; compiled with \<^verbatim>\<open>NDEBUG\<close> it does nothing, and the function goes on
  to line 159 as after the other branches: a new block without name becomes the insertion
  block.
\<close>

definition EmitReturnStmt :: "Expr option \<Rightarrow> CodeGenFunction \<Rightarrow> error + CodeGenFunction" where
  "EmitReturnStmt RV \<sigma> =
     (let (RetVal, \<sigma>1) =
            (case RV of
               None \<Rightarrow> (None, \<sigma>)
             | Some E \<Rightarrow> (let (R, \<sigma>') = EmitExpr E \<sigma> in (Some R, \<sigma>')));
          r = (if FnIsVoid \<sigma>1 then Inr (CreateRetVoid \<sigma>1)
               else case RetVal of
                   None \<Rightarrow>
                     if FnRetTy \<sigma>1 = VoidTy then Inr (CreateRetVoid \<sigma>1)
                     else Inr (CreateRet (UndefValue (FnRetTy \<sigma>1)) \<sigma>1)
                 | Some R \<Rightarrow>
                     if isScalar R then Inr (CreateRet (getVal R) \<sigma>1)
                     else if NDEBUG \<sigma>1 then Inr \<sigma>1
                     else Inl AggregateReturnUnimp)
      in case r of
           Inl e \<Rightarrow> Inl e
         | Inr \<sigma>2 \<Rightarrow> (let (BB, \<sigma>3) = new_BasicBlock_in [] \<sigma>2 in Inr (SetInsertPoint BB \<sigma>3)))"

text \<open>
  The dispatcher \<^verbatim>\<open>EmitStmt\<close> (lines 27 to 49) and the three routines that call it back:
  \<^verbatim>\<open>EmitCompoundStmt\<close> (the loop over the body), \<^verbatim>\<open>EmitLabelStmt\<close> and \<^verbatim>\<open>EmitIfStmt\<close>.  The
  first two equations are the \<^verbatim>\<open>default\<close> branch of the switch: an expression is evaluated
  and its result ignored; any other statement is reported on the output, and the function
  returns.  A failure in a sub-statement ends the lowering.
\<close>

function (sequential) EmitStmt :: "Stmt \<Rightarrow> CodeGenFunction \<Rightarrow> error + CodeGenFunction"
  and EmitCompoundStmt :: "Stmt list \<Rightarrow> CodeGenFunction \<Rightarrow> error + CodeGenFunction"
  and EmitLabelStmt :: "label \<Rightarrow> Stmt \<Rightarrow> CodeGenFunction \<Rightarrow> error + CodeGenFunction"
  and EmitIfStmt ::
    "Expr \<Rightarrow> Stmt \<Rightarrow> Stmt option \<Rightarrow> CodeGenFunction \<Rightarrow> error + CodeGenFunction"
where
  "EmitStmt (ExprStmt E) \<sigma> = Inr (snd (EmitExpr E \<sigma>))"
| "EmitStmt (OtherStmt dump) \<sigma> =
     Inr (\<sigma>\<lparr>Output := Output \<sigma> @ [''Unimplemented stmt!'', dump]\<rparr>)"
| "EmitStmt NullStmt \<sigma> = Inr \<sigma>"
| "EmitStmt (CompoundStmt Body) \<sigma> = EmitCompoundStmt Body \<sigma>"
| "EmitStmt (LabelStmt L SubStmt) \<sigma> = EmitLabelStmt L SubStmt \<sigma>"
| "EmitStmt (GotoStmt L) \<sigma> = Inr (EmitGotoStmt L \<sigma>)"
| "EmitStmt (IfStmt Cond Then Else) \<sigma> = EmitIfStmt Cond Then Else \<sigma>"
| "EmitStmt (ReturnStmt RV) \<sigma> = EmitReturnStmt RV \<sigma>"
| "EmitStmt (DeclStmt D) \<sigma> = Inr (EmitDeclStmt D \<sigma>)"
| "EmitCompoundStmt [] \<sigma> = Inr \<sigma>"
| "EmitCompoundStmt (S # Rest) \<sigma> =
     (case EmitStmt S \<sigma> of
        Inl e \<Rightarrow> Inl e
      | Inr \<sigma>' \<Rightarrow> EmitCompoundStmt Rest \<sigma>')"
| "EmitLabelStmt L SubStmt \<sigma> =
     (let (NextBB, \<sigma>1) = getBasicBlockForLabel L \<sigma>
      in EmitStmt SubStmt (EmitBlock NextBB \<sigma>1))"
| "EmitIfStmt Cond Then Else \<sigma> =
     (let (CondVal, \<sigma>1) = EmitExpr Cond \<sigma>;
          (BoolCondVal, \<sigma>2) = EvaluateScalarValueToBool CondVal \<sigma>1;
          (ContBlock, \<sigma>3) = new_BasicBlock ''ifend'' \<sigma>2;
          (ThenBlock, \<sigma>4) = new_BasicBlock ''ifthen'' \<sigma>3;
          (ElseBlock, \<sigma>5) =
             (case Else of
                None \<Rightarrow> (ContBlock, \<sigma>4)
              | Some _ \<Rightarrow> new_BasicBlock ''ifelse'' \<sigma>4);
          \<sigma>6 = CreateCondBr BoolCondVal ThenBlock ElseBlock \<sigma>5
      in case EmitStmt Then (EmitBlock ThenBlock \<sigma>6) of
           Inl e \<Rightarrow> Inl e
         | Inr \<sigma>7 \<Rightarrow>
             (case (case Else of
                      None \<Rightarrow> Inr (CreateBr ContBlock \<sigma>7)
                    | Some El \<Rightarrow>
                        (case EmitStmt El (EmitBlock ElseBlock (CreateBr ContBlock \<sigma>7)) of
                           Inl e \<Rightarrow> Inl e
                         | Inr \<sigma>8 \<Rightarrow> Inr (CreateBr ContBlock \<sigma>8))) of
                Inl e \<Rightarrow> Inl e
              | Inr \<sigma>9 \<Rightarrow> Inr (EmitBlock ContBlock \<sigma>9)))"
  by pat_completeness auto

termination
  by (relation "measure (case_sum
        (case_sum (\<lambda>(S, \<sigma>). 2 * size S) (\<lambda>(Body, \<sigma>). 2 * size_list size Body + 1))
        (case_sum (\<lambda>(L, S, \<sigma>). 2 * size S + 1)
                  (\<lambda>(C, T, E, \<sigma>). 2 * (size T + size_option size E) + 1)))")
     auto

section \<open>Notions used to state the properties\<close>

text \<open>The labels that a statement tree defines, in the order in which they are lowered.\<close>

fun labels_of :: "Stmt \<Rightarrow> label list"
  and labels_of_list :: "Stmt list \<Rightarrow> label list"
where
  "labels_of (LabelStmt L SubStmt) = L # labels_of SubStmt"
| "labels_of (CompoundStmt Body) = labels_of_list Body"
| "labels_of (IfStmt Cond Then Else) =
     labels_of Then @ (case Else of None \<Rightarrow> [] | Some El \<Rightarrow> labels_of El)"
| "labels_of _ = []"
| "labels_of_list [] = []"
| "labels_of_list (S # Rest) = labels_of S @ labels_of_list Rest"

text \<open>The blocks that the label table binds to the labels in a list.\<close>

definition label_blocks :: "CodeGenFunction \<Rightarrow> label list \<Rightarrow> nat set" where
  "label_blocks \<sigma> Ls = {b. \<exists>l \<in> set Ls. map_of (LabelMap \<sigma>) l = Some b}"

text \<open>The control-flow edges of the graph: block \<open>a\<close> holds a branch to block \<open>t\<close>.\<close>

definition targets :: "inst list \<Rightarrow> nat set" where
  "targets Is = (\<Union>i \<in> set Is. set (successors i))"

definition edge :: "CodeGenFunction \<Rightarrow> nat \<Rightarrow> nat \<Rightarrow> bool" where
  "edge \<sigma> a t = (case getBlock \<sigma> a of None \<Rightarrow> False | Some B \<Rightarrow> t \<in> targets (bb_insts B))"

text \<open>
  The terminator invariant of one block: every instruction before the last one is not a
  terminator.
\<close>

definition terminator_last :: "inst list \<Rightarrow> bool" where
  "terminator_last Is = list_all (\<lambda>i. \<not> isTerminator i) (butlast Is)"

text \<open>A block is open when it holds no terminator: instructions may still be appended.\<close>

definition open_block :: "BasicBlock \<Rightarrow> bool" where
  "open_block B = list_all (\<lambda>i. \<not> isTerminator i) (bb_insts B)"

text \<open>
  What one step of the lowering may change, relative to the state \<open>\<sigma>\<close> before it: the
  heap only grows; blocks allocated before the step and outside \<open>X\<close> are untouched; the
  insertion block afterwards is in \<open>X\<close> or new; the block list gains only blocks in \<open>X\<close> or
  new ones; new edges lead to blocks in \<open>T\<close> or to new blocks; the label table keeps its
  bindings and binds further labels to new blocks only; the function's type is unchanged.
\<close>

definition frame ::
    "nat set \<Rightarrow> nat set \<Rightarrow> CodeGenFunction \<Rightarrow> CodeGenFunction \<Rightarrow> bool" where
  "frame X T \<sigma> \<sigma>' \<longleftrightarrow>
     length (Heap \<sigma>) \<le> length (Heap \<sigma>') \<and>
     (\<forall>b < length (Heap \<sigma>). b \<notin> X \<longrightarrow> getBlock \<sigma>' b = getBlock \<sigma> b) \<and>
     (InsertBlock \<sigma>' \<in> X \<or> length (Heap \<sigma>) \<le> InsertBlock \<sigma>') \<and>
     (\<forall>b \<in> set (FnBlocks \<sigma>'). b \<in> set (FnBlocks \<sigma>) \<or> b \<in> X \<or> length (Heap \<sigma>) \<le> b) \<and>
     (\<forall>a t. edge \<sigma>' a t \<longrightarrow> edge \<sigma> a t \<or> t \<in> T \<or> length (Heap \<sigma>) \<le> t) \<and>
     (\<forall>l b. map_of (LabelMap \<sigma>) l = Some b \<longrightarrow> map_of (LabelMap \<sigma>') l = Some b) \<and>
     (\<forall>l b. map_of (LabelMap \<sigma>') l = Some b \<longrightarrow>
            map_of (LabelMap \<sigma>) l = Some b \<or> length (Heap \<sigma>) \<le> b) \<and>
     FnIsVoid \<sigma>' = FnIsVoid \<sigma> \<and> FnRetTy \<sigma>' = FnRetTy \<sigma>"

text \<open>
  Well-formed lowering states.  Every live block satisfies the terminator invariant, the
  blocks of the function are live, and the label table binds distinct labels to distinct
  allocated blocks.
\<close>

definition cgf_ok :: "CodeGenFunction \<Rightarrow> bool" where
  "cgf_ok \<sigma> \<longleftrightarrow>
     list_all (\<lambda>c. case c of None \<Rightarrow> True | Some B \<Rightarrow> terminator_last (bb_insts B)) (Heap \<sigma>) \<and>
     list_all (\<lambda>b. getBlock \<sigma> b \<noteq> None) (FnBlocks \<sigma>) \<and>
     list_all (\<lambda>b. b < length (Heap \<sigma>)) (map snd (LabelMap \<sigma>)) \<and>
     distinct (map snd (LabelMap \<sigma>))"

text \<open>The insertion block exists and is open.\<close>

definition insert_open :: "CodeGenFunction \<Rightarrow> bool" where
  "insert_open \<sigma> = (case getBlock \<sigma> (InsertBlock \<sigma>) of None \<Rightarrow> False | Some B \<Rightarrow> open_block B)"

text \<open>
  The labels in \<open>Ls\<close> have not been placed yet: where the label table already binds one of
  them (a goto came first), its block is live, empty and not the insertion block.
\<close>

definition pending :: "label list \<Rightarrow> CodeGenFunction \<Rightarrow> bool" where
  "pending Ls \<sigma> =
     list_all (\<lambda>l. case map_of (LabelMap \<sigma>) l of
                      None \<Rightarrow> True
                    | Some b \<Rightarrow> b \<noteq> InsertBlock \<sigma> \<and>
                        (case getBlock \<sigma> b of None \<Rightarrow> False | Some B \<Rightarrow> bb_insts B = [])) Ls"


text \<open>
  A block that has been allocated for later use: it is live and empty, it is not the
  insertion block, and no label is bound to it.
\<close>

definition reserved :: "CodeGenFunction \<Rightarrow> nat \<Rightarrow> bool" where
  "reserved \<sigma> b \<longleftrightarrow>
     (case getBlock \<sigma> b of None \<Rightarrow> False | Some B \<Rightarrow> bb_insts B = []) \<and>
     b \<noteq> InsertBlock \<sigma> \<and> b \<notin> ran (map_of (LabelMap \<sigma>))"

text \<open>
  The state in which \<open>EmitIfStmt\<close> lowers the then-branch: the condition is evaluated, the
  blocks are allocated, the conditional branch is emitted and the then-block is open.
\<close>

definition if_head :: "Expr \<Rightarrow> Stmt option \<Rightarrow> CodeGenFunction \<Rightarrow> CodeGenFunction" where
  "if_head Cond Else \<sigma> =
     (let (CondVal, \<sigma>1) = EmitExpr Cond \<sigma>;
          (BoolCondVal, \<sigma>2) = EvaluateScalarValueToBool CondVal \<sigma>1;
          (ContBlock, \<sigma>3) = new_BasicBlock ''ifend'' \<sigma>2;
          (ThenBlock, \<sigma>4) = new_BasicBlock ''ifthen'' \<sigma>3;
          (ElseBlock, \<sigma>5) =
             (case Else of
                None \<Rightarrow> (ContBlock, \<sigma>4)
              | Some _ \<Rightarrow> new_BasicBlock ''ifelse'' \<sigma>4)
      in EmitBlock ThenBlock (CreateCondBr BoolCondVal ThenBlock ElseBlock \<sigma>5))"

text \<open>
  The state in which the examples start: a function whose only block is the empty block
  \<open>entry\<close>, which is the insertion block; no label is bound; the file is compiled with
  assertions.
\<close>

definition start :: "bool \<Rightarrow> lltype \<Rightarrow> CodeGenFunction" where
  "start IsVoid RetTy =
     \<lparr>Heap = [Some \<lparr>bb_name = ''entry'', bb_insts = []\<rparr>], FnBlocks = [0], InsertBlock = 0,
      LabelMap = [], FnIsVoid = IsVoid, FnRetTy = RetTy, Output = [], NDEBUG = False\<rparr>"

section \<open>Basic facts about blocks and the builder\<close>

lemma getBlock_new_BasicBlock [simp]:
  "getBlock (snd (new_BasicBlock N \<sigma>)) b =
     (if b = length (Heap \<sigma>) then Some \<lparr>bb_name = N, bb_insts = []\<rparr> else getBlock \<sigma> b)"
  by (simp add: getBlock_def new_BasicBlock_def nth_append)

lemma new_BasicBlock_fields [simp]:
  "fst (new_BasicBlock N \<sigma>) = length (Heap \<sigma>)"
  "length (Heap (snd (new_BasicBlock N \<sigma>))) = Suc (length (Heap \<sigma>))"
  "Heap (snd (new_BasicBlock N \<sigma>)) = Heap \<sigma> @ [Some \<lparr>bb_name = N, bb_insts = []\<rparr>]"
  "InsertBlock (snd (new_BasicBlock N \<sigma>)) = InsertBlock \<sigma>"
  "FnBlocks (snd (new_BasicBlock N \<sigma>)) = FnBlocks \<sigma>"
  "LabelMap (snd (new_BasicBlock N \<sigma>)) = LabelMap \<sigma>"
  "FnIsVoid (snd (new_BasicBlock N \<sigma>)) = FnIsVoid \<sigma>"
  "FnRetTy (snd (new_BasicBlock N \<sigma>)) = FnRetTy \<sigma>"
  "Output (snd (new_BasicBlock N \<sigma>)) = Output \<sigma>"
  "NDEBUG (snd (new_BasicBlock N \<sigma>)) = NDEBUG \<sigma>"
  by (simp_all add: new_BasicBlock_def)

lemma getBlock_Insert [simp]:
  "getBlock (Insert Is \<sigma>) b =
     (if b = InsertBlock \<sigma>
      then map_option (\<lambda>B. B\<lparr>bb_insts := bb_insts B @ Is\<rparr>) (getBlock \<sigma> b)
      else getBlock \<sigma> b)"
  by (auto simp: getBlock_def Insert_def split: option.splits)

lemma Insert_fields [simp]:
  "length (Heap (Insert Is \<sigma>)) = length (Heap \<sigma>)"
  "InsertBlock (Insert Is \<sigma>) = InsertBlock \<sigma>"
  "FnBlocks (Insert Is \<sigma>) = FnBlocks \<sigma>"
  "LabelMap (Insert Is \<sigma>) = LabelMap \<sigma>"
  "FnIsVoid (Insert Is \<sigma>) = FnIsVoid \<sigma>"
  "FnRetTy (Insert Is \<sigma>) = FnRetTy \<sigma>"
  "Output (Insert Is \<sigma>) = Output \<sigma>"
  "NDEBUG (Insert Is \<sigma>) = NDEBUG \<sigma>"
  by (simp_all add: Insert_def split: option.splits)

lemma getBlock_eraseFromParent [simp]:
  "getBlock (eraseFromParent BB \<sigma>) b = (if b = BB then None else getBlock \<sigma> b)"
  by (auto simp: getBlock_def eraseFromParent_def)

lemma eraseFromParent_fields [simp]:
  "length (Heap (eraseFromParent BB \<sigma>)) = length (Heap \<sigma>)"
  "InsertBlock (eraseFromParent BB \<sigma>) = InsertBlock \<sigma>"
  "FnBlocks (eraseFromParent BB \<sigma>) = removeAll BB (FnBlocks \<sigma>)"
  "LabelMap (eraseFromParent BB \<sigma>) = LabelMap \<sigma>"
  "FnIsVoid (eraseFromParent BB \<sigma>) = FnIsVoid \<sigma>"
  "FnRetTy (eraseFromParent BB \<sigma>) = FnRetTy \<sigma>"
  "Output (eraseFromParent BB \<sigma>) = Output \<sigma>"
  "NDEBUG (eraseFromParent BB \<sigma>) = NDEBUG \<sigma>"
  by (simp_all add: eraseFromParent_def)

lemma getBlock_SetInsertPoint [simp]: "getBlock (SetInsertPoint BB \<sigma>) b = getBlock \<sigma> b"
  by (simp add: getBlock_def SetInsertPoint_def)

lemma SetInsertPoint_fields [simp]:
  "Heap (SetInsertPoint BB \<sigma>) = Heap \<sigma>"
  "InsertBlock (SetInsertPoint BB \<sigma>) = BB"
  "FnBlocks (SetInsertPoint BB \<sigma>) = FnBlocks \<sigma>"
  "LabelMap (SetInsertPoint BB \<sigma>) = LabelMap \<sigma>"
  "FnIsVoid (SetInsertPoint BB \<sigma>) = FnIsVoid \<sigma>"
  "FnRetTy (SetInsertPoint BB \<sigma>) = FnRetTy \<sigma>"
  "Output (SetInsertPoint BB \<sigma>) = Output \<sigma>"
  "NDEBUG (SetInsertPoint BB \<sigma>) = NDEBUG \<sigma>"
  by (simp_all add: SetInsertPoint_def)

lemma getBlock_FnBlocks_update [simp]: "getBlock (\<sigma>\<lparr>FnBlocks := F\<rparr>) b = getBlock \<sigma> b"
  by (simp add: getBlock_def)

lemma getBlock_LabelMap_update [simp]: "getBlock (\<sigma>\<lparr>LabelMap := M\<rparr>) b = getBlock \<sigma> b"
  by (simp add: getBlock_def)

lemma getBlock_Output_update [simp]: "getBlock (\<sigma>\<lparr>Output := M\<rparr>) b = getBlock \<sigma> b"
  by (simp add: getBlock_def)

lemma getBlock_NDEBUG_update [simp]: "getBlock (\<sigma>\<lparr>NDEBUG := M\<rparr>) b = getBlock \<sigma> b"
  by (simp add: getBlock_def)

lemma getBlock_Some_less: "getBlock \<sigma> b = Some B \<Longrightarrow> b < length (Heap \<sigma>)"
  by (simp add: getBlock_def split: if_splits)

text \<open>EmitBlock, by the three cases of the block that was current.\<close>

lemma EmitBlock_terminated:
  "getBlock \<sigma> (InsertBlock \<sigma>) = Some LastBB \<Longrightarrow> getTerminator LastBB \<noteq> None \<Longrightarrow>
   EmitBlock BB \<sigma> = SetInsertPoint BB (\<sigma>\<lparr>FnBlocks := FnBlocks \<sigma> @ [BB]\<rparr>)"
  by (simp add: EmitBlock_def)

lemma EmitBlock_placeholder:
  "getBlock \<sigma> (InsertBlock \<sigma>) = Some LastBB \<Longrightarrow> bb_insts LastBB = [] \<Longrightarrow> bb_name LastBB = [] \<Longrightarrow>
   EmitBlock BB \<sigma> =
     SetInsertPoint BB (eraseFromParent (InsertBlock \<sigma>) \<sigma>
        \<lparr>FnBlocks := removeAll (InsertBlock \<sigma>) (FnBlocks \<sigma>) @ [BB]\<rparr>)"
  by (simp add: EmitBlock_def getTerminator_def)

lemma EmitBlock_fallthrough:
  "getBlock \<sigma> (InsertBlock \<sigma>) = Some LastBB \<Longrightarrow> getTerminator LastBB = None \<Longrightarrow>
   \<not> (bb_insts LastBB = [] \<and> bb_name LastBB = []) \<Longrightarrow>
   EmitBlock BB \<sigma> = SetInsertPoint BB (CreateBr BB \<sigma>\<lparr>FnBlocks := FnBlocks \<sigma> @ [BB]\<rparr>)"
  by (auto simp: EmitBlock_def CreateBr_def)

lemma EmitBlock_dangling:
  "getBlock \<sigma> (InsertBlock \<sigma>) = None \<Longrightarrow>
   EmitBlock BB \<sigma> = SetInsertPoint BB (\<sigma>\<lparr>FnBlocks := FnBlocks \<sigma> @ [BB]\<rparr>)"
  by (simp add: EmitBlock_def)

lemma EmitBlock_fields [simp]:
  "length (Heap (EmitBlock BB \<sigma>)) = length (Heap \<sigma>)"
  "InsertBlock (EmitBlock BB \<sigma>) = BB"
  "LabelMap (EmitBlock BB \<sigma>) = LabelMap \<sigma>"
  "FnIsVoid (EmitBlock BB \<sigma>) = FnIsVoid \<sigma>"
  "FnRetTy (EmitBlock BB \<sigma>) = FnRetTy \<sigma>"
  "Output (EmitBlock BB \<sigma>) = Output \<sigma>"
  "NDEBUG (EmitBlock BB \<sigma>) = NDEBUG \<sigma>"
  by (simp_all add: EmitBlock_def CreateBr_def Let_def split: option.splits)

lemma getBlock_EmitBlock_other [simp]:
  "b \<noteq> InsertBlock \<sigma> \<Longrightarrow> getBlock (EmitBlock BB \<sigma>) b = getBlock \<sigma> b"
  by (simp add: EmitBlock_def CreateBr_def Let_def split: option.splits)

lemma Insert_Some:
  "getBlock \<sigma> (InsertBlock \<sigma>) = Some B \<Longrightarrow>
   Insert Is \<sigma> = \<sigma>\<lparr>Heap := (Heap \<sigma>)[InsertBlock \<sigma> := Some (B\<lparr>bb_insts := bb_insts B @ Is\<rparr>)]\<rparr>"
  by (simp add: Insert_def)

section \<open>The if statement, unfolded\<close>

lemma EmitIfStmt_unfold:
  "EmitIfStmt Cond Then Else \<sigma> =
     (case EmitStmt Then (if_head Cond Else \<sigma>) of
        Inl e \<Rightarrow> Inl e
      | Inr \<sigma>7 \<Rightarrow>
          (case Else of
             None \<Rightarrow> Inr (EmitBlock (length (Heap \<sigma>)) (CreateBr (length (Heap \<sigma>)) \<sigma>7))
           | Some El \<Rightarrow>
               (case EmitStmt El (EmitBlock (length (Heap \<sigma>) + 2) (CreateBr (length (Heap \<sigma>)) \<sigma>7)) of
                  Inl e \<Rightarrow> Inl e
                | Inr \<sigma>8 \<Rightarrow> Inr (EmitBlock (length (Heap \<sigma>)) (CreateBr (length (Heap \<sigma>)) \<sigma>8)))))"
  by (simp add: if_head_def EmitExpr_def EvaluateScalarValueToBool_def split_beta
        split: sum.splits option.splits)

declare EmitIfStmt.simps [simp del]

lemma if_head_eq:
  "if_head Cond Else \<sigma> =
     EmitBlock (Suc (length (Heap \<sigma>)))
       (CreateCondBr (NotZero (Value (expr_val Cond))) (Suc (length (Heap \<sigma>)))
          (case Else of None \<Rightarrow> length (Heap \<sigma>) | Some _ \<Rightarrow> length (Heap \<sigma>) + 2)
          (case Else of
             None \<Rightarrow> snd (new_BasicBlock ''ifthen'' (snd (new_BasicBlock ''ifend''
                       (Insert [Op 0] (Insert (map Op (expr_code Cond)) \<sigma>)))))
           | Some _ \<Rightarrow> snd (new_BasicBlock ''ifelse'' (snd (new_BasicBlock ''ifthen''
                       (snd (new_BasicBlock ''ifend''
                         (Insert [Op 0] (Insert (map Op (expr_code Cond)) \<sigma>)))))))))"
  by (simp add: if_head_def EmitExpr_def EvaluateScalarValueToBool_def split_beta
        split: option.splits)

text \<open>Unfolding the lowering on a concrete statement and state.\<close>

lemmas lower_defs =
  EmitIfStmt_unfold if_head_eq EmitLabelStmt.simps EmitGotoStmt_def EmitReturnStmt_def
  EmitDeclStmt_def EmitExpr_def EvaluateScalarValueToBool_def getBasicBlockForLabel_def
  EmitBlock_def CreateBr_def CreateCondBr_def CreateRet_def CreateRetVoid_def Insert_def
  getBlock_def getTerminator_def new_BasicBlock_def new_BasicBlock_in_def SetInsertPoint_def
  eraseFromParent_def start_def

section \<open>What a lowering step may change\<close>

lemma edge_Insert:
  "edge (Insert Is \<sigma>) a t \<longleftrightarrow>
     edge \<sigma> a t \<or> (a = InsertBlock \<sigma> \<and> getBlock \<sigma> a \<noteq> None \<and> t \<in> targets Is)"
  by (auto simp: edge_def targets_def split: option.splits)

lemma getBlock_beyond [simp]: "length (Heap \<sigma>) \<le> b \<Longrightarrow> getBlock \<sigma> b = None"
  by (simp add: getBlock_def)

lemma edge_new_BasicBlock [simp]: "edge (snd (new_BasicBlock N \<sigma>)) a t \<longleftrightarrow> edge \<sigma> a t"
  by (simp add: edge_def targets_def)

lemma edge_eraseFromParent: "edge (eraseFromParent b \<sigma>) a t \<Longrightarrow> edge \<sigma> a t"
  by (auto simp: edge_def split: option.splits if_splits)

lemma edge_updates [simp]:
  "edge (SetInsertPoint BB \<sigma>) a t \<longleftrightarrow> edge \<sigma> a t"
  "edge (\<sigma>\<lparr>FnBlocks := F\<rparr>) a t \<longleftrightarrow> edge \<sigma> a t"
  "edge (\<sigma>\<lparr>LabelMap := M\<rparr>) a t \<longleftrightarrow> edge \<sigma> a t"
  "edge (\<sigma>\<lparr>Output := Out\<rparr>) a t \<longleftrightarrow> edge \<sigma> a t"
  by (simp_all add: edge_def)

lemma edge_EmitBlock: "edge (EmitBlock BB \<sigma>) a t \<Longrightarrow> edge \<sigma> a t \<or> t = BB"
  by (auto simp: EmitBlock_def CreateBr_def Let_def edge_Insert targets_def
        dest: edge_eraseFromParent split: option.splits if_splits)

lemma set_FnBlocks_EmitBlock: "set (FnBlocks (EmitBlock BB \<sigma>)) \<subseteq> insert BB (set (FnBlocks \<sigma>))"
  by (auto simp: EmitBlock_def CreateBr_def Let_def split: option.splits if_splits)

lemma frame_refl: "InsertBlock \<sigma> \<in> X \<Longrightarrow> frame X T \<sigma> \<sigma>"
  by (simp add: frame_def)

lemma frame_mono: "frame X T \<sigma> \<sigma>' \<Longrightarrow> X \<subseteq> X' \<Longrightarrow> T \<subseteq> T' \<Longrightarrow> frame X' T' \<sigma> \<sigma>'"
  unfolding frame_def by blast

lemma frame_Insert:
  assumes "frame X T \<sigma> \<sigma>1" and "\<forall>t \<in> targets Is. t \<in> T \<or> length (Heap \<sigma>) \<le> t"
  shows "frame X T \<sigma> (Insert Is \<sigma>1)"
  using assms unfolding frame_def by (auto simp: edge_Insert)

lemma frame_new_BasicBlock:
  assumes "frame X T \<sigma> \<sigma>1"
  shows "frame X T \<sigma> (snd (new_BasicBlock N \<sigma>1))"
  using assms unfolding frame_def by auto

lemma frame_SetInsertPoint:
  assumes "frame X T \<sigma> \<sigma>1" and "BB \<in> X \<or> length (Heap \<sigma>) \<le> BB"
  shows "frame X T \<sigma> (SetInsertPoint BB \<sigma>1)"
  using assms unfolding frame_def by auto

lemma frame_FnBlocks:
  assumes "frame X T \<sigma> \<sigma>1" and "BB \<in> X \<or> length (Heap \<sigma>) \<le> BB"
  shows "frame X T \<sigma> (\<sigma>1\<lparr>FnBlocks := FnBlocks \<sigma>1 @ [BB]\<rparr>)"
  using assms unfolding frame_def by auto

lemma frame_Output:
  assumes "frame X T \<sigma> \<sigma>1"
  shows "frame X T \<sigma> (\<sigma>1\<lparr>Output := Out\<rparr>)"
  using assms unfolding frame_def by auto

lemma frame_EmitBlock:
  assumes "frame X T \<sigma> \<sigma>1" and "BB \<in> X \<or> length (Heap \<sigma>) \<le> BB"
    and "BB \<in> T \<or> length (Heap \<sigma>) \<le> BB"
  shows "frame X T \<sigma> (EmitBlock BB \<sigma>1)"
proof -
  have heap: "\<forall>b < length (Heap \<sigma>). b \<notin> X \<longrightarrow> getBlock (EmitBlock BB \<sigma>1) b = getBlock \<sigma> b"
    using assms(1) unfolding frame_def by (metis getBlock_EmitBlock_other not_le)
  have fn: "\<forall>b \<in> set (FnBlocks (EmitBlock BB \<sigma>1)).
      b \<in> set (FnBlocks \<sigma>) \<or> b \<in> X \<or> length (Heap \<sigma>) \<le> b"
    using assms(1,2) set_FnBlocks_EmitBlock [of BB \<sigma>1] unfolding frame_def by blast
  have ed: "\<forall>a t. edge (EmitBlock BB \<sigma>1) a t \<longrightarrow> edge \<sigma> a t \<or> t \<in> T \<or> length (Heap \<sigma>) \<le> t"
    using assms(1,3) edge_EmitBlock [of BB \<sigma>1] unfolding frame_def by blast
  show ?thesis
    using assms heap fn ed unfolding frame_def by simp
qed

lemma frame_trans:
  assumes "frame X T \<sigma> \<sigma>1" and "frame Y U \<sigma>1 \<sigma>2"
    and "\<forall>b \<in> Y. b \<in> X \<or> length (Heap \<sigma>) \<le> b"
    and "\<forall>t \<in> U. t \<in> T \<or> length (Heap \<sigma>) \<le> t"
  shows "frame X T \<sigma> \<sigma>2"
proof -
  have len: "length (Heap \<sigma>) \<le> length (Heap \<sigma>1)" "length (Heap \<sigma>1) \<le> length (Heap \<sigma>2)"
    using assms(1,2) unfolding frame_def by auto
  have heap: "\<forall>b < length (Heap \<sigma>). b \<notin> X \<longrightarrow> getBlock \<sigma>2 b = getBlock \<sigma> b"
  proof (intro allI impI)
    fix b assume b: "b < length (Heap \<sigma>)" "b \<notin> X"
    then have "b \<notin> Y" using assms(3) by auto
    moreover have "b < length (Heap \<sigma>1)" using b len by simp
    ultimately have "getBlock \<sigma>2 b = getBlock \<sigma>1 b" using assms(2) unfolding frame_def by blast
    also have "\<dots> = getBlock \<sigma> b" using assms(1) b unfolding frame_def by blast
    finally show "getBlock \<sigma>2 b = getBlock \<sigma> b" .
  qed
  have ins: "InsertBlock \<sigma>2 \<in> X \<or> length (Heap \<sigma>) \<le> InsertBlock \<sigma>2"
    using assms(2,3) len unfolding frame_def by (metis le_trans)
  have fn: "\<forall>b \<in> set (FnBlocks \<sigma>2). b \<in> set (FnBlocks \<sigma>) \<or> b \<in> X \<or> length (Heap \<sigma>) \<le> b"
  proof
    fix b assume "b \<in> set (FnBlocks \<sigma>2)"
    then have "b \<in> set (FnBlocks \<sigma>1) \<or> b \<in> Y \<or> length (Heap \<sigma>1) \<le> b"
      using assms(2) unfolding frame_def by blast
    then show "b \<in> set (FnBlocks \<sigma>) \<or> b \<in> X \<or> length (Heap \<sigma>) \<le> b"
      using assms(1,3) len unfolding frame_def by (metis le_trans)
  qed
  have ed: "\<forall>a t. edge \<sigma>2 a t \<longrightarrow> edge \<sigma> a t \<or> t \<in> T \<or> length (Heap \<sigma>) \<le> t"
  proof (intro allI impI)
    fix a t assume "edge \<sigma>2 a t"
    then have "edge \<sigma>1 a t \<or> t \<in> U \<or> length (Heap \<sigma>1) \<le> t"
      using assms(2) unfolding frame_def by blast
    then show "edge \<sigma> a t \<or> t \<in> T \<or> length (Heap \<sigma>) \<le> t"
      using assms(1,4) len unfolding frame_def by (metis le_trans)
  qed
  have lm1: "\<forall>l b. map_of (LabelMap \<sigma>) l = Some b \<longrightarrow> map_of (LabelMap \<sigma>2) l = Some b"
    using assms(1,2) unfolding frame_def by blast
  have lm2: "\<forall>l b. map_of (LabelMap \<sigma>2) l = Some b \<longrightarrow>
            map_of (LabelMap \<sigma>) l = Some b \<or> length (Heap \<sigma>) \<le> b"
  proof (intro allI impI)
    fix l b assume "map_of (LabelMap \<sigma>2) l = Some b"
    then have "map_of (LabelMap \<sigma>1) l = Some b \<or> length (Heap \<sigma>1) \<le> b"
      using assms(2) unfolding frame_def by blast
    then show "map_of (LabelMap \<sigma>) l = Some b \<or> length (Heap \<sigma>) \<le> b"
      using assms(1) len unfolding frame_def by (metis le_trans)
  qed
  have ty: "FnIsVoid \<sigma>2 = FnIsVoid \<sigma> \<and> FnRetTy \<sigma>2 = FnRetTy \<sigma>"
    using assms(1,2) unfolding frame_def by simp
  show ?thesis
    unfolding frame_def using len heap ins fn ed lm1 lm2 ty by simp
qed

lemma label_blocks_simps [simp]:
  "label_blocks \<sigma> [] = {}"
  "label_blocks \<sigma> (L # Ls) = {b. map_of (LabelMap \<sigma>) L = Some b} \<union> label_blocks \<sigma> Ls"
  "label_blocks \<sigma> (Ls @ Ms) = label_blocks \<sigma> Ls \<union> label_blocks \<sigma> Ms"
  by (auto simp: label_blocks_def)

lemma label_blocks_ran: "label_blocks \<sigma> Ls \<subseteq> ran (map_of (LabelMap \<sigma>))"
  by (auto simp: label_blocks_def ran_def)

lemma frame_label_blocks:
  "frame X T \<sigma> \<sigma>1 \<Longrightarrow> b \<in> label_blocks \<sigma>1 Ls \<Longrightarrow> b \<in> label_blocks \<sigma> Ls \<or> length (Heap \<sigma>) \<le> b"
  unfolding frame_def label_blocks_def by blast

lemma frame_ran:
  "frame X T \<sigma> \<sigma>1 \<Longrightarrow> b \<in> ran (map_of (LabelMap \<sigma>1)) \<Longrightarrow>
   b \<in> ran (map_of (LabelMap \<sigma>)) \<or> length (Heap \<sigma>) \<le> b"
  unfolding frame_def ran_def by blast

lemma frame_InsertBlock:
  "frame X T \<sigma> \<sigma>1 \<Longrightarrow> InsertBlock \<sigma>1 \<in> X \<or> length (Heap \<sigma>) \<le> InsertBlock \<sigma>1"
  unfolding frame_def by blast

lemma frame_length: "frame X T \<sigma> \<sigma>1 \<Longrightarrow> length (Heap \<sigma>) \<le> length (Heap \<sigma>1)"
  unfolding frame_def by blast

lemma frame_compose:
  assumes "frame X T \<sigma> \<sigma>1"
    and "frame (insert (InsertBlock \<sigma>1) (label_blocks \<sigma>1 Ls)) (ran (map_of (LabelMap \<sigma>1))) \<sigma>1 \<sigma>2"
    and "label_blocks \<sigma> Ls \<subseteq> X" and "ran (map_of (LabelMap \<sigma>)) \<subseteq> T"
  shows "frame X T \<sigma> \<sigma>2"
proof (rule frame_trans [OF assms(1,2)])
  show "\<forall>b\<in>insert (InsertBlock \<sigma>1) (label_blocks \<sigma>1 Ls). b \<in> X \<or> length (Heap \<sigma>) \<le> b"
    using frame_InsertBlock [OF assms(1)] frame_label_blocks [OF assms(1)] assms(3) by blast
  show "\<forall>t\<in>ran (map_of (LabelMap \<sigma>1)). t \<in> T \<or> length (Heap \<sigma>) \<le> t"
    using frame_ran [OF assms(1)] assms(4) by blast
qed

lemma frame_LabelMap_add:
  assumes "frame X T \<sigma> \<sigma>1" and "map_of (LabelMap \<sigma>1) L = None" and "length (Heap \<sigma>) \<le> b"
  shows "frame X T \<sigma> (\<sigma>1\<lparr>LabelMap := (L, b) # LabelMap \<sigma>1\<rparr>)"
  using assms unfolding frame_def by auto

lemma frame_getBasicBlockForLabel:
  assumes "frame X T \<sigma> \<sigma>1" and "getBasicBlockForLabel L \<sigma>1 = (b, \<sigma>2)"
  shows "frame X T \<sigma> \<sigma>2 \<and> map_of (LabelMap \<sigma>2) L = Some b \<and>
         (map_of (LabelMap \<sigma>) L = Some b \<or> length (Heap \<sigma>) \<le> b)"
proof (cases "map_of (LabelMap \<sigma>1) L")
  case None
  then have eq: "b = length (Heap \<sigma>1)"
     "\<sigma>2 = (snd (new_BasicBlock (label_name L) \<sigma>1))\<lparr>LabelMap := (L, b) # LabelMap (snd (new_BasicBlock (label_name L) \<sigma>1))\<rparr>"
    using assms(2) by (auto simp: getBasicBlockForLabel_def split_beta)
  have len: "length (Heap \<sigma>) \<le> b" using eq(1) frame_length [OF assms(1)] by simp
  have "frame X T \<sigma> \<sigma>2"
    unfolding eq(2)
    by (rule frame_LabelMap_add [OF frame_new_BasicBlock [OF assms(1)]]) (simp_all add: None len)
  then show ?thesis using eq len by simp
next
  case (Some b')
  then have "b = b'" "\<sigma>2 = \<sigma>1" using assms(2) by (auto simp: getBasicBlockForLabel_def)
  then show ?thesis using assms(1) Some unfolding frame_def by blast
qed

lemma frame_new_BasicBlock_in:
  assumes "frame X T \<sigma> \<sigma>1" and "new_BasicBlock_in N \<sigma>1 = (BB, \<sigma>2)"
  shows "frame X T \<sigma> (SetInsertPoint BB \<sigma>2)"
proof -
  have eq: "BB = length (Heap \<sigma>1)"
    "\<sigma>2 = (snd (new_BasicBlock N \<sigma>1))\<lparr>FnBlocks := FnBlocks (snd (new_BasicBlock N \<sigma>1)) @ [BB]\<rparr>"
    using assms(2) by (auto simp: new_BasicBlock_in_def split_beta)
  have len: "length (Heap \<sigma>) \<le> BB" using eq(1) frame_length [OF assms(1)] by simp
  show ?thesis
    unfolding eq(2)
    by (intro frame_SetInsertPoint frame_FnBlocks frame_new_BasicBlock assms(1)) (simp_all add: len)
qed

lemma targets_simps [simp]:
  "targets [] = {}"
  "targets (map Op Ns) = {}"
  "targets [Op n] = {}"
  "targets [Br b] = {b}"
  "targets [CondBr c t e] = {t, e}"
  "targets [RetVoid] = {}"
  "targets [Ret v] = {}"
  by (auto simp: targets_def)

lemma frame_EmitGotoStmt:
  assumes "frame X T \<sigma> \<sigma>1" and "\<forall>b. map_of (LabelMap \<sigma>) L = Some b \<longrightarrow> b \<in> T"
  shows "frame X T \<sigma> (EmitGotoStmt L \<sigma>1)"
proof -
  obtain b \<sigma>2 where g: "getBasicBlockForLabel L \<sigma>1 = (b, \<sigma>2)" by (cases "getBasicBlockForLabel L \<sigma>1")
  obtain n \<sigma>3 where n: "new_BasicBlock_in [] (CreateBr b \<sigma>2) = (n, \<sigma>3)"
    by (cases "new_BasicBlock_in [] (CreateBr b \<sigma>2)")
  from frame_getBasicBlockForLabel [OF assms(1) g]
  have f2: "frame X T \<sigma> \<sigma>2" and b: "map_of (LabelMap \<sigma>) L = Some b \<or> length (Heap \<sigma>) \<le> b"
    by simp_all
  have "frame X T \<sigma> (CreateBr b \<sigma>2)"
    unfolding CreateBr_def using b assms(2) by (intro frame_Insert f2) auto
  from frame_new_BasicBlock_in [OF this n] show ?thesis
    by (simp add: EmitGotoStmt_def g n)
qed

text \<open>
  Where \<open>EmitReturnStmt\<close> returns normally, it has appended the code of the operand, then a
  void return, a return of a value, or nothing (the assertion compiled out), and has opened
  a new block.
\<close>

lemma EmitReturnStmt_Inr:
  assumes "EmitReturnStmt RV \<sigma> = Inr \<sigma>'"
  shows "\<exists>\<sigma>t. (\<sigma>t = (case RV of None \<Rightarrow> \<sigma> | Some E \<Rightarrow> snd (EmitExpr E \<sigma>)) \<or>
              \<sigma>t = Insert [RetVoid] (case RV of None \<Rightarrow> \<sigma> | Some E \<Rightarrow> snd (EmitExpr E \<sigma>)) \<or>
              (\<exists>v. \<sigma>t = Insert [Ret v] (case RV of None \<Rightarrow> \<sigma> | Some E \<Rightarrow> snd (EmitExpr E \<sigma>)))) \<and>
           \<sigma>' = SetInsertPoint (fst (new_BasicBlock_in [] \<sigma>t)) (snd (new_BasicBlock_in [] \<sigma>t))"
proof -
  define F where "F \<sigma>t = SetInsertPoint (fst (new_BasicBlock_in [] \<sigma>t)) (snd (new_BasicBlock_in [] \<sigma>t))"
    for \<sigma>t
  define \<sigma>e where "\<sigma>e = (case RV of None \<Rightarrow> \<sigma> | Some E \<Rightarrow> snd (EmitExpr E \<sigma>))"
  have "\<sigma>' = F \<sigma>e \<or> \<sigma>' = F (Insert [RetVoid] \<sigma>e) \<or> (\<exists>v. \<sigma>' = F (Insert [Ret v] \<sigma>e))"
    using assms
    by (auto simp: EmitReturnStmt_def F_def \<sigma>e_def CreateRetVoid_def CreateRet_def split_beta Let_def
          split: option.splits if_splits)
  then show ?thesis
    unfolding F_def \<sigma>e_def by blast
qed

lemma frame_EmitReturnStmt:
  assumes "frame X T \<sigma> \<sigma>1" and "EmitReturnStmt RV \<sigma>1 = Inr \<sigma>2"
  shows "frame X T \<sigma> \<sigma>2"
proof -
  define \<sigma>e where "\<sigma>e = (case RV of None \<Rightarrow> \<sigma>1 | Some E \<Rightarrow> snd (EmitExpr E \<sigma>1))"
  have fe: "frame X T \<sigma> \<sigma>e"
    unfolding \<sigma>e_def using assms(1) by (auto simp: EmitExpr_def intro: frame_Insert split: option.splits)
  from EmitReturnStmt_Inr [OF assms(2)] obtain \<sigma>t where
    t: "\<sigma>t = \<sigma>e \<or> \<sigma>t = Insert [RetVoid] \<sigma>e \<or> (\<exists>v. \<sigma>t = Insert [Ret v] \<sigma>e)"
    and eq: "\<sigma>2 = SetInsertPoint (fst (new_BasicBlock_in [] \<sigma>t)) (snd (new_BasicBlock_in [] \<sigma>t))"
    unfolding \<sigma>e_def by blast
  have "frame X T \<sigma> \<sigma>t"
    using t fe by (auto intro: frame_Insert)
  then show ?thesis
    unfolding eq using frame_new_BasicBlock_in by (metis prod.collapse)
qed

declare EmitLabelStmt.simps [simp del]

lemma EmitCompoundStmt_frame:
  assumes "\<And>S \<sigma> \<sigma>'. S \<in> set Body \<Longrightarrow> EmitStmt S \<sigma> = Inr \<sigma>' \<Longrightarrow>
      frame (insert (InsertBlock \<sigma>) (label_blocks \<sigma> (labels_of S))) (ran (map_of (LabelMap \<sigma>))) \<sigma> \<sigma>'"
    and "frame X T \<sigma> \<sigma>1" and "EmitCompoundStmt Body \<sigma>1 = Inr \<sigma>2"
    and "label_blocks \<sigma> (labels_of_list Body) \<subseteq> X" and "ran (map_of (LabelMap \<sigma>)) \<subseteq> T"
  shows "frame X T \<sigma> \<sigma>2"
  using assms
proof (induction Body arbitrary: \<sigma>1)
  case Nil
  then show ?case by simp
next
  case (Cons S Rest)
  from Cons.prems(3) obtain \<sigma>m where
    s: "EmitStmt S \<sigma>1 = Inr \<sigma>m" and r: "EmitCompoundStmt Rest \<sigma>m = Inr \<sigma>2"
    by (auto split: sum.splits)
  have m: "frame X T \<sigma> \<sigma>m"
    by (rule frame_compose [OF Cons.prems(2) Cons.prems(1) [OF _ s]]) (use Cons.prems(4,5) in auto)
  show ?case
  proof (rule Cons.IH [OF _ m r])
    fix S' \<sigma>a \<sigma>b
    assume "S' \<in> set Rest" "EmitStmt S' \<sigma>a = Inr \<sigma>b"
    then show "frame (insert (InsertBlock \<sigma>a) (label_blocks \<sigma>a (labels_of S')))
        (ran (map_of (LabelMap \<sigma>a))) \<sigma>a \<sigma>b"
      using Cons.prems(1) by simp
  qed (use Cons.prems(4,5) in auto)
qed

lemma EmitStmt_frame:
  "EmitStmt S \<sigma> = Inr \<sigma>' \<Longrightarrow>
   frame (insert (InsertBlock \<sigma>) (label_blocks \<sigma> (labels_of S))) (ran (map_of (LabelMap \<sigma>))) \<sigma> \<sigma>'"
proof (induction S arbitrary: \<sigma> \<sigma>')
  case NullStmt
  then show ?case by (simp add: frame_refl)
next
  case (CompoundStmt Body)
  show ?case
    by (rule EmitCompoundStmt_frame [OF CompoundStmt.IH frame_refl])
       (use CompoundStmt.prems in auto)
next
  case (LabelStmt L S)
  let ?X = "insert (InsertBlock \<sigma>) (label_blocks \<sigma> (labels_of (LabelStmt L S)))"
  let ?T = "ran (map_of (LabelMap \<sigma>))"
  obtain b \<sigma>1 where g: "getBasicBlockForLabel L \<sigma> = (b, \<sigma>1)" by (cases "getBasicBlockForLabel L \<sigma>")
  have s: "EmitStmt S (EmitBlock b \<sigma>1) = Inr \<sigma>'"
    using LabelStmt.prems by (simp add: EmitLabelStmt.simps g)
  have f0: "frame ?X ?T \<sigma> \<sigma>" by (simp add: frame_refl)
  from frame_getBasicBlockForLabel [OF f0 g]
  have f1: "frame ?X ?T \<sigma> \<sigma>1" and b: "map_of (LabelMap \<sigma>) L = Some b \<or> length (Heap \<sigma>) \<le> b"
    by simp_all
  have f2: "frame ?X ?T \<sigma> (EmitBlock b \<sigma>1)"
    using b by (intro frame_EmitBlock f1) (auto simp: ran_def)
  show ?case
    by (rule frame_compose [OF f2 LabelStmt.IH [OF s]]) auto
next
  case (GotoStmt L)
  then show ?case
    by (auto intro!: frame_EmitGotoStmt frame_refl simp: ran_def)
next
  case (IfStmt Cond Then Else)
  let ?X = "insert (InsertBlock \<sigma>) (label_blocks \<sigma> (labels_of (IfStmt Cond Then Else)))"
  let ?T = "ran (map_of (LabelMap \<sigma>))"
  let ?n = "length (Heap \<sigma>)"
  have f0: "frame ?X ?T \<sigma> \<sigma>" by (simp add: frame_refl)
  have fh: "frame ?X ?T \<sigma> (if_head Cond Else \<sigma>)"
    unfolding if_head_eq CreateCondBr_def
    by (cases Else)
       (auto intro!: frame_EmitBlock frame_Insert frame_new_BasicBlock frame_refl)
  from IfStmt.prems obtain \<sigma>7 where
    t: "EmitStmt Then (if_head Cond Else \<sigma>) = Inr \<sigma>7"
    by (auto simp: EmitIfStmt_unfold split: sum.splits)
  have f7: "frame ?X ?T \<sigma> \<sigma>7"
    by (rule frame_compose [OF fh IfStmt.IH(1) [OF t]]) auto
  have f8: "frame ?X ?T \<sigma> (CreateBr ?n \<sigma>7)"
    unfolding CreateBr_def by (intro frame_Insert f7) simp
  show ?case
  proof (cases Else)
    case None
    then have "\<sigma>' = EmitBlock ?n (CreateBr ?n \<sigma>7)"
      using IfStmt.prems t by (simp add: EmitIfStmt_unfold)
    then show ?thesis
      using frame_EmitBlock [OF f8, of ?n] by simp
  next
    case (Some El)
    then obtain \<sigma>8 where
      e: "EmitStmt El (EmitBlock (?n + 2) (CreateBr ?n \<sigma>7)) = Inr \<sigma>8"
      and eq: "\<sigma>' = EmitBlock ?n (CreateBr ?n \<sigma>8)"
      using IfStmt.prems t by (auto simp: EmitIfStmt_unfold split: sum.splits)
    have f9: "frame ?X ?T \<sigma> (EmitBlock (?n + 2) (CreateBr ?n \<sigma>7))"
      by (intro frame_EmitBlock f8) simp_all
    have f10: "frame ?X ?T \<sigma> \<sigma>8"
      by (rule frame_compose [OF f9 IfStmt.IH(2) [OF _ e]]) (auto simp: Some)
    have "frame ?X ?T \<sigma> (CreateBr ?n \<sigma>8)"
      unfolding CreateBr_def by (intro frame_Insert f10) simp
    from frame_EmitBlock [OF this, of ?n] show ?thesis
      unfolding eq by simp
  qed
next
  case (ReturnStmt RV)
  then show ?case
    by (auto intro: frame_EmitReturnStmt frame_refl)
next
  case (DeclStmt D)
  then show ?case
    by (auto simp: EmitDeclStmt_def intro!: frame_Insert frame_refl)
next
  case (ExprStmt E)
  then show ?case
    by (auto simp: EmitExpr_def intro!: frame_Insert frame_refl)
next
  case (OtherStmt d)
  then show ?case
    by (auto intro!: frame_Output frame_refl)
qed

section \<open>The dispatcher\<close>

text \<open>
  C10.  Lowering a null statement through \<open>EmitStmt\<close> leaves the entire lowering state
  unchanged: blocks, block list, insertion block, label table and output are exactly as
  before the call.
\<close>

theorem EmitStmt_NullStmt_unchanged: "EmitStmt NullStmt \<sigma> = Inr \<sigma>"
  by simp

text \<open>
  C7, as the claim states it, fails: for a statement of a class without a lowering routine
  the dispatcher prints its diagnostic and returns normally, and the lowering goes on.  Here
  the return statement that follows the unhandled statement is lowered.
\<close>

theorem EmitStmt_unhandled_continues:
  "EmitStmt (CompoundStmt [OtherStmt ''WhileStmt'', ReturnStmt None]) (start True VoidTy) =
     Inr \<lparr>Heap = [Some \<lparr>bb_name = ''entry'', bb_insts = [RetVoid]\<rparr>,
                  Some \<lparr>bb_name = [], bb_insts = []\<rparr>],
          FnBlocks = [0, 1], InsertBlock = 1, LabelMap = [], FnIsVoid = True,
          FnRetTy = VoidTy, Output = [''Unimplemented stmt!'', ''WhileStmt''], NDEBUG = False\<rparr>"
  by code_simp

text \<open>
  C7, amended.  For a statement that is not an expression and whose class has no lowering
  routine, \<open>EmitStmt\<close> prints the diagnostic \<open>Unimplemented stmt!\<close> followed by the dump of
  the statement, changes nothing else in the lowering state, and returns normally: a
  compound statement continues with the statements that follow.
\<close>

theorem EmitStmt_unhandled:
  "EmitStmt (OtherStmt dump) \<sigma> = Inr (\<sigma>\<lparr>Output := Output \<sigma> @ [''Unimplemented stmt!'', dump]\<rparr>) \<and>
   EmitCompoundStmt (OtherStmt dump # Rest) \<sigma> =
     EmitCompoundStmt Rest (\<sigma>\<lparr>Output := Output \<sigma> @ [''Unimplemented stmt!'', dump]\<rparr>)"
  by simp

section \<open>Labels\<close>

lemma ran_map_of_subset: "ran (map_of xs) \<subseteq> snd ` set xs"
  by (auto simp: ran_def dest: map_of_SomeD intro: rev_image_eqI)

lemma getBasicBlockForLabel_bound:
  "map_of (LabelMap \<sigma>) L = Some b \<Longrightarrow> getBasicBlockForLabel L \<sigma> = (b, \<sigma>)"
  by (simp add: getBasicBlockForLabel_def)

lemma getBasicBlockForLabel_unbound:
  "map_of (LabelMap \<sigma>) L = None \<Longrightarrow>
   getBasicBlockForLabel L \<sigma> =
     (length (Heap \<sigma>),
      \<sigma>\<lparr>Heap := Heap \<sigma> @ [Some \<lparr>bb_name = label_name L, bb_insts = []\<rparr>],
        LabelMap := (L, length (Heap \<sigma>)) # LabelMap \<sigma>\<rparr>)"
  by (simp add: getBasicBlockForLabel_def new_BasicBlock_def)






section \<open>Opening a block\<close>

text \<open>
  C2.  \<open>EmitBlock\<close>, by the block that was current (\<open>LastBB\<close>): a block that ends in a
  terminator is left unchanged; else a block without instructions and without name is
  deleted from the function; else a branch to the new block is appended to it.  In every
  case the new block is appended to the block list and becomes the insertion block.  An
  empty, unnamed block that no label is bound to and that is replaced by another block is
  not in the block list afterwards, and no statement lowered later brings it back.
\<close>

theorem EmitBlock_cases:
  assumes "getBlock \<sigma> (InsertBlock \<sigma>) = Some LastBB"
  shows
   "(getTerminator LastBB \<noteq> None \<longrightarrow>
        Heap (EmitBlock BB \<sigma>) = Heap \<sigma> \<and> FnBlocks (EmitBlock BB \<sigma>) = FnBlocks \<sigma> @ [BB]) \<and>
    (getTerminator LastBB = None \<and> bb_insts LastBB = [] \<and> bb_name LastBB = [] \<longrightarrow>
        Heap (EmitBlock BB \<sigma>) = (Heap \<sigma>)[InsertBlock \<sigma> := None] \<and>
        FnBlocks (EmitBlock BB \<sigma>) = removeAll (InsertBlock \<sigma>) (FnBlocks \<sigma>) @ [BB]) \<and>
    (getTerminator LastBB = None \<and> \<not> (bb_insts LastBB = [] \<and> bb_name LastBB = []) \<longrightarrow>
        Heap (EmitBlock BB \<sigma>) =
          (Heap \<sigma>)[InsertBlock \<sigma> := Some (LastBB\<lparr>bb_insts := bb_insts LastBB @ [Br BB]\<rparr>)] \<and>
        FnBlocks (EmitBlock BB \<sigma>) = FnBlocks \<sigma> @ [BB]) \<and>
    InsertBlock (EmitBlock BB \<sigma>) = BB \<and> last (FnBlocks (EmitBlock BB \<sigma>)) = BB \<and>
    LabelMap (EmitBlock BB \<sigma>) = LabelMap \<sigma> \<and>
    (bb_insts LastBB = [] \<and> bb_name LastBB = [] \<and> InsertBlock \<sigma> \<noteq> BB \<and>
     InsertBlock \<sigma> \<notin> snd ` set (LabelMap \<sigma>) \<longrightarrow>
        InsertBlock \<sigma> \<notin> set (FnBlocks (EmitBlock BB \<sigma>)) \<and>
        (\<forall>S \<sigma>'. EmitStmt S (EmitBlock BB \<sigma>) = Inr \<sigma>' \<longrightarrow> InsertBlock \<sigma> \<notin> set (FnBlocks \<sigma>')))"
proof -
  have 1: "getTerminator LastBB \<noteq> None \<longrightarrow>
        Heap (EmitBlock BB \<sigma>) = Heap \<sigma> \<and> FnBlocks (EmitBlock BB \<sigma>) = FnBlocks \<sigma> @ [BB]"
    using assms by (simp add: EmitBlock_terminated)
  have 2: "getTerminator LastBB = None \<and> bb_insts LastBB = [] \<and> bb_name LastBB = [] \<longrightarrow>
        Heap (EmitBlock BB \<sigma>) = (Heap \<sigma>)[InsertBlock \<sigma> := None] \<and>
        FnBlocks (EmitBlock BB \<sigma>) = removeAll (InsertBlock \<sigma>) (FnBlocks \<sigma>) @ [BB]"
    using assms by (simp add: EmitBlock_placeholder eraseFromParent_def)
  have 3: "getTerminator LastBB = None \<and> \<not> (bb_insts LastBB = [] \<and> bb_name LastBB = []) \<longrightarrow>
        Heap (EmitBlock BB \<sigma>) =
          (Heap \<sigma>)[InsertBlock \<sigma> := Some (LastBB\<lparr>bb_insts := bb_insts LastBB @ [Br BB]\<rparr>)] \<and>
        FnBlocks (EmitBlock BB \<sigma>) = FnBlocks \<sigma> @ [BB]"
    using assms by (auto simp: EmitBlock_fallthrough CreateBr_def Insert_Some)
  have 4: "last (FnBlocks (EmitBlock BB \<sigma>)) = BB"
    by (simp add: EmitBlock_def CreateBr_def Let_def split: option.splits)
  have 5: "InsertBlock \<sigma> \<notin> set (FnBlocks (EmitBlock BB \<sigma>)) \<and>
        (\<forall>S \<sigma>'. EmitStmt S (EmitBlock BB \<sigma>) = Inr \<sigma>' \<longrightarrow> InsertBlock \<sigma> \<notin> set (FnBlocks \<sigma>'))"
    if h: "bb_insts LastBB = []" "bb_name LastBB = []" "InsertBlock \<sigma> \<noteq> BB"
      "InsertBlock \<sigma> \<notin> snd ` set (LabelMap \<sigma>)"
  proof
    show a: "InsertBlock \<sigma> \<notin> set (FnBlocks (EmitBlock BB \<sigma>))"
      using assms h by (simp add: EmitBlock_placeholder)
    show "\<forall>S \<sigma>'. EmitStmt S (EmitBlock BB \<sigma>) = Inr \<sigma>' \<longrightarrow> InsertBlock \<sigma> \<notin> set (FnBlocks \<sigma>')"
    proof (intro allI impI)
      fix S \<sigma>' assume "EmitStmt S (EmitBlock BB \<sigma>) = Inr \<sigma>'"
      from EmitStmt_frame [OF this]
      have "\<forall>b \<in> set (FnBlocks \<sigma>'). b \<in> set (FnBlocks (EmitBlock BB \<sigma>)) \<or>
          b \<in> insert BB (label_blocks (EmitBlock BB \<sigma>) (labels_of S)) \<or> length (Heap \<sigma>) \<le> b"
        unfolding frame_def by simp
      moreover have "InsertBlock \<sigma> \<notin> label_blocks (EmitBlock BB \<sigma>) (labels_of S)"
        using h(4) label_blocks_ran [of "EmitBlock BB \<sigma>" "labels_of S"]
          ran_map_of_subset [of "LabelMap \<sigma>"] by auto
      moreover have "InsertBlock \<sigma> < length (Heap \<sigma>)"
        using assms by (rule getBlock_Some_less)
      ultimately show "InsertBlock \<sigma> \<notin> set (FnBlocks \<sigma>')"
        using a h(3) by auto
    qed
  qed
  show ?thesis
    using 1 2 3 4 5 by simp
qed

theorem EmitBlock_cases_witness:
  "EmitBlock 1 (EmitGotoStmt (Label 0 ''L'') (start True VoidTy)) =
     \<lparr>Heap = [Some \<lparr>bb_name = ''entry'', bb_insts = [Br 1]\<rparr>,
              Some \<lparr>bb_name = ''L'', bb_insts = []\<rparr>, None],
      FnBlocks = [0, 1], InsertBlock = 1, LabelMap = [((Label 0 ''L''), 1)],
      FnIsVoid = True, FnRetTy = VoidTy, Output = [], NDEBUG = False\<rparr> \<and>
   EmitStmt (ReturnStmt None) (EmitBlock 1 (EmitGotoStmt (Label 0 ''L'') (start True VoidTy))) =
     Inr \<lparr>Heap = [Some \<lparr>bb_name = ''entry'', bb_insts = [Br 1]\<rparr>,
              Some \<lparr>bb_name = ''L'', bb_insts = [RetVoid]\<rparr>, None,
              Some \<lparr>bb_name = [], bb_insts = []\<rparr>],
      FnBlocks = [0, 1, 3], InsertBlock = 3, LabelMap = [((Label 0 ''L''), 1)],
      FnIsVoid = True, FnRetTy = VoidTy, Output = [], NDEBUG = False\<rparr> \<and>
   2 \<notin> set (FnBlocks \<lparr>Heap = [Some \<lparr>bb_name = ''entry'', bb_insts = [Br 1]\<rparr>,
              Some \<lparr>bb_name = ''L'', bb_insts = [RetVoid]\<rparr>, None,
              Some \<lparr>bb_name = [], bb_insts = []\<rparr>],
      FnBlocks = [0, 1, 3], InsertBlock = 3, LabelMap = [((Label 0 ''L''), 1)],
      FnIsVoid = True, FnRetTy = VoidTy, Output = [], NDEBUG = False\<rparr>)"
proof -
  let ?\<sigma> = "EmitGotoStmt (Label 0 ''L'') (start True VoidTy)"
  let ?\<sigma>' = "\<lparr>Heap = [Some \<lparr>bb_name = ''entry'', bb_insts = [Br 1]\<rparr>,
              Some \<lparr>bb_name = ''L'', bb_insts = [RetVoid]\<rparr>, None,
              Some \<lparr>bb_name = [], bb_insts = []\<rparr>],
      FnBlocks = [0, 1, 3], InsertBlock = 3, LabelMap = [((Label 0 ''L''), 1)],
      FnIsVoid = True, FnRetTy = VoidTy, Output = [], NDEBUG = False\<rparr>"
  have st: "?\<sigma> = \<lparr>Heap = [Some \<lparr>bb_name = ''entry'', bb_insts = [Br 1]\<rparr>,
              Some \<lparr>bb_name = ''L'', bb_insts = []\<rparr>, Some \<lparr>bb_name = [], bb_insts = []\<rparr>],
      FnBlocks = [0, 2], InsertBlock = 2, LabelMap = [((Label 0 ''L''), 1)],
      FnIsVoid = True, FnRetTy = VoidTy, Output = [], NDEBUG = False\<rparr>"
    by code_simp
  have cur: "getBlock ?\<sigma> (InsertBlock ?\<sigma>) = Some \<lparr>bb_name = [], bb_insts = []\<rparr>"
    unfolding st by (simp add: getBlock_def)
  have run: "EmitStmt (ReturnStmt None) (EmitBlock 1 ?\<sigma>) = Inr ?\<sigma>'" by code_simp
  have ins: "InsertBlock ?\<sigma> = 2" "LabelMap ?\<sigma> = [((Label 0 ''L''), 1)]" "FnBlocks ?\<sigma> = [0, 2]"
    unfolding st by simp_all
  note inst = EmitBlock_cases [OF cur, of 1]
  have a: "Heap (EmitBlock 1 ?\<sigma>) = (Heap ?\<sigma>)[2 := None]
      \<and> FnBlocks (EmitBlock 1 ?\<sigma>) = [0, 1] \<and> InsertBlock (EmitBlock 1 ?\<sigma>) = 1
      \<and> LabelMap (EmitBlock 1 ?\<sigma>) = [((Label 0 ''L''), 1)]"
    using inst by (simp add: getTerminator_def ins)
  have b: "2 \<notin> set (FnBlocks ?\<sigma>')"
    using inst run by (simp add: ins)
  have "EmitBlock 1 ?\<sigma> = \<lparr>Heap = [Some \<lparr>bb_name = ''entry'', bb_insts = [Br 1]\<rparr>,
              Some \<lparr>bb_name = ''L'', bb_insts = []\<rparr>, None],
      FnBlocks = [0, 1], InsertBlock = 1, LabelMap = [((Label 0 ''L''), 1)],
      FnIsVoid = True, FnRetTy = VoidTy, Output = [], NDEBUG = False\<rparr>"
    by code_simp
  then show ?thesis using run b by simp
qed

text \<open>
  C9.  \<open>EmitBlock\<close> deletes the block that was current exactly when that block has no
  instructions and no name.  An empty block with a name, such as the block \<open>ifend\<close> of an
  if statement that nothing follows, is kept and receives the fall-through branch to the
  new block.
\<close>

theorem EmitBlock_erases_iff:
  assumes "getBlock \<sigma> (InsertBlock \<sigma>) = Some LastBB"
  shows "(getBlock (EmitBlock BB \<sigma>) (InsertBlock \<sigma>) = None \<longleftrightarrow>
            bb_insts LastBB = [] \<and> bb_name LastBB = []) \<and>
         (bb_insts LastBB = [] \<and> bb_name LastBB \<noteq> [] \<longrightarrow>
            getBlock (EmitBlock BB \<sigma>) (InsertBlock \<sigma>) = Some (LastBB\<lparr>bb_insts := [Br BB]\<rparr>) \<and>
            FnBlocks (EmitBlock BB \<sigma>) = FnBlocks \<sigma> @ [BB])"
  using assms
  by (auto simp: EmitBlock_def CreateBr_def getTerminator_def)

theorem EmitBlock_erases_iff_witness:
  "getBlock (EmitBlock 3
      \<lparr>Heap = [Some \<lparr>bb_name = ''entry'', bb_insts = [Op 0, CondBr (NotZero (Value 1)) 2 1]\<rparr>,
               Some \<lparr>bb_name = ''ifend'', bb_insts = []\<rparr>,
               Some \<lparr>bb_name = ''ifthen'', bb_insts = [Br 1]\<rparr>,
               Some \<lparr>bb_name = ''L'', bb_insts = []\<rparr>],
        FnBlocks = [0, 2, 1], InsertBlock = 1, LabelMap = [((Label 0 ''L''), 3)],
        FnIsVoid = True, FnRetTy = VoidTy, Output = [], NDEBUG = False\<rparr>) 1 =
     Some \<lparr>bb_name = ''ifend'', bb_insts = [Br 3]\<rparr>"
proof -
  let ?\<sigma> = "\<lparr>Heap = [Some \<lparr>bb_name = ''entry'', bb_insts = [Op 0, CondBr (NotZero (Value 1)) 2 1]\<rparr>,
               Some \<lparr>bb_name = ''ifend'', bb_insts = []\<rparr>,
               Some \<lparr>bb_name = ''ifthen'', bb_insts = [Br 1]\<rparr>,
               Some \<lparr>bb_name = ''L'', bb_insts = []\<rparr>],
        FnBlocks = [0, 2, 1], InsertBlock = 1, LabelMap = [((Label 0 ''L''), 3)],
        FnIsVoid = True, FnRetTy = VoidTy, Output = [], NDEBUG = False\<rparr>"
  have 1: "getBlock ?\<sigma> (InsertBlock ?\<sigma>) = Some \<lparr>bb_name = ''ifend'', bb_insts = []\<rparr>"
    by (simp add: getBlock_def)
  show ?thesis
    using EmitBlock_erases_iff [OF 1, of 3] by simp
qed

section \<open>Goto statements\<close>



lemma edge_getBasicBlockForLabel [simp]:
  "edge (snd (getBasicBlockForLabel L \<sigma>)) a t \<longleftrightarrow> edge \<sigma> a t"
  by (cases "map_of (LabelMap \<sigma>) L")
     (simp_all add: getBasicBlockForLabel_def split_beta)

lemma getBasicBlockForLabel_fields [simp]:
  "InsertBlock (snd (getBasicBlockForLabel L \<sigma>)) = InsertBlock \<sigma>"
  "FnBlocks (snd (getBasicBlockForLabel L \<sigma>)) = FnBlocks \<sigma>"
  "FnIsVoid (snd (getBasicBlockForLabel L \<sigma>)) = FnIsVoid \<sigma>"
  "FnRetTy (snd (getBasicBlockForLabel L \<sigma>)) = FnRetTy \<sigma>"
  "Output (snd (getBasicBlockForLabel L \<sigma>)) = Output \<sigma>"
  "NDEBUG (snd (getBasicBlockForLabel L \<sigma>)) = NDEBUG \<sigma>"
  by (cases "map_of (LabelMap \<sigma>) L"; simp add: getBasicBlockForLabel_def split_beta)+







section \<open>If statements\<close>

text \<open>
  C4.  \<open>EmitIfStmt\<close> appends the code of the condition and a conditional branch to the
  insertion block, with targets the then-block and the else-block, or the continue block
  if there is no else.  Before it lowers the then-branch (in state \<open>\<sigma>T\<close>) it has allocated
  exactly two blocks without else (\<open>ifend\<close>, \<open>ifthen\<close>) and exactly three with else
  (\<open>ifend\<close>, \<open>ifthen\<close>, \<open>ifelse\<close>), and it allocates none later.  The then-branch is lowered
  with the then-block as insertion block, followed by a branch to the continue block; so is
  the else-branch, if present, in the else-block; the continue block is the insertion block
  in the end.
\<close>

theorem EmitIfStmt_shape:
  assumes "EmitIfStmt Cond Then Else \<sigma> = Inr \<sigma>'" and "getBlock \<sigma> (InsertBlock \<sigma>) = Some B"
  shows "\<exists>\<sigma>T \<sigma>T'.
      length (Heap \<sigma>T) = length (Heap \<sigma>) + (case Else of None \<Rightarrow> 2 | Some _ \<Rightarrow> 3) \<and>
      getBlock \<sigma>T (length (Heap \<sigma>)) = Some \<lparr>bb_name = ''ifend'', bb_insts = []\<rparr> \<and>
      getBlock \<sigma>T (length (Heap \<sigma>) + 1) = Some \<lparr>bb_name = ''ifthen'', bb_insts = []\<rparr> \<and>
      (Else \<noteq> None \<longrightarrow>
         getBlock \<sigma>T (length (Heap \<sigma>) + 2) = Some \<lparr>bb_name = ''ifelse'', bb_insts = []\<rparr>) \<and>
      getBlock \<sigma>T (InsertBlock \<sigma>) =
        Some (B\<lparr>bb_insts := bb_insts B @ map Op (expr_code Cond) @
                [Op 0, CondBr (NotZero (Value (expr_val Cond))) (length (Heap \<sigma>) + 1)
                         (case Else of None \<Rightarrow> length (Heap \<sigma>) | Some _ \<Rightarrow> length (Heap \<sigma>) + 2)]\<rparr>) \<and>
      FnBlocks \<sigma>T = FnBlocks \<sigma> @ [length (Heap \<sigma>) + 1] \<and>
      InsertBlock \<sigma>T = length (Heap \<sigma>) + 1 \<and>
      EmitStmt Then \<sigma>T = Inr \<sigma>T' \<and>
      (case Else of
         None \<Rightarrow>
           \<sigma>' = EmitBlock (length (Heap \<sigma>)) (CreateBr (length (Heap \<sigma>)) \<sigma>T') \<and>
           length (Heap \<sigma>') = length (Heap \<sigma>T')
       | Some El \<Rightarrow>
           (\<exists>\<sigma>E \<sigma>E'.
              \<sigma>E = EmitBlock (length (Heap \<sigma>) + 2) (CreateBr (length (Heap \<sigma>)) \<sigma>T') \<and>
              length (Heap \<sigma>E) = length (Heap \<sigma>T') \<and>
              EmitStmt El \<sigma>E = Inr \<sigma>E' \<and>
              \<sigma>' = EmitBlock (length (Heap \<sigma>)) (CreateBr (length (Heap \<sigma>)) \<sigma>E') \<and>
              length (Heap \<sigma>') = length (Heap \<sigma>E'))) \<and>
      InsertBlock \<sigma>' = length (Heap \<sigma>)"
proof -
  let ?n = "length (Heap \<sigma>)"
  let ?h = "if_head Cond Else \<sigma>"
  have lt: "InsertBlock \<sigma> < ?n" using assms(2) by (rule getBlock_Some_less)
  have g: "Heap \<sigma> ! InsertBlock \<sigma> = Some B" using assms(2) lt by (simp add: getBlock_def)
  from assms(1) obtain \<sigma>T' where t: "EmitStmt Then ?h = Inr \<sigma>T'"
    by (auto simp: EmitIfStmt_unfold split: sum.splits)
  have head: "length (Heap ?h) = ?n + (case Else of None \<Rightarrow> 2 | Some _ \<Rightarrow> 3) \<and>
      getBlock ?h ?n = Some \<lparr>bb_name = ''ifend'', bb_insts = []\<rparr> \<and>
      getBlock ?h (?n + 1) = Some \<lparr>bb_name = ''ifthen'', bb_insts = []\<rparr> \<and>
      (Else \<noteq> None \<longrightarrow> getBlock ?h (?n + 2) = Some \<lparr>bb_name = ''ifelse'', bb_insts = []\<rparr>) \<and>
      getBlock ?h (InsertBlock \<sigma>) =
        Some (B\<lparr>bb_insts := bb_insts B @ map Op (expr_code Cond) @
                [Op 0, CondBr (NotZero (Value (expr_val Cond))) (?n + 1)
                         (case Else of None \<Rightarrow> ?n | Some _ \<Rightarrow> ?n + 2)]\<rparr>) \<and>
      FnBlocks ?h = FnBlocks \<sigma> @ [?n + 1] \<and> InsertBlock ?h = ?n + 1"
    using lt g
    by (cases Else)
       (simp_all add: if_head_eq CreateCondBr_def EmitBlock_def getTerminator_def getBlock_def
          Insert_def nth_append SetInsertPoint_def new_BasicBlock_def)
  show ?thesis
  proof (cases Else)
    case None
    then have "\<sigma>' = EmitBlock ?n (CreateBr ?n \<sigma>T')"
      using assms(1) t by (simp add: EmitIfStmt_unfold)
    then show ?thesis
      using head t None by (intro exI [of _ ?h] exI [of _ \<sigma>T']) (simp add: CreateBr_def)
  next
    case (Some El)
    then obtain \<sigma>E' where
      e: "EmitStmt El (EmitBlock (?n + 2) (CreateBr ?n \<sigma>T')) = Inr \<sigma>E'"
      and eq: "\<sigma>' = EmitBlock ?n (CreateBr ?n \<sigma>E')"
      using assms(1) t by (auto simp: EmitIfStmt_unfold split: sum.splits)
    then show ?thesis
      using head t Some by (intro exI [of _ ?h] exI [of _ \<sigma>T']) (simp add: CreateBr_def)
  qed
qed

theorem EmitIfStmt_shape_witness:
  "EmitIfStmt (Expr [5] True 1) (ReturnStmt (Some (Expr [] True 1))) (Some NullStmt)
      (start False (ValueTy 0)) =
     Inr \<lparr>Heap =
        [Some \<lparr>bb_name = ''entry'', bb_insts = [Op 5, Op 0, CondBr (NotZero (Value 1)) 2 3]\<rparr>,
         Some \<lparr>bb_name = ''ifend'', bb_insts = []\<rparr>,
         Some \<lparr>bb_name = ''ifthen'', bb_insts = [Ret (Value 1)]\<rparr>,
         Some \<lparr>bb_name = ''ifelse'', bb_insts = [Br 1]\<rparr>,
         Some \<lparr>bb_name = [], bb_insts = [Br 1]\<rparr>],
        FnBlocks = [0, 2, 4, 3, 1], InsertBlock = 1, LabelMap = [],
        FnIsVoid = False, FnRetTy = ValueTy 0, Output = [], NDEBUG = False\<rparr> \<and>
   (\<exists>\<sigma>T \<sigma>T'. length (Heap \<sigma>T) = 4 \<and> InsertBlock \<sigma>T = 2 \<and> FnBlocks \<sigma>T = [0, 2] \<and>
      getBlock \<sigma>T 0 =
        Some \<lparr>bb_name = ''entry'', bb_insts = [Op 5, Op 0, CondBr (NotZero (Value 1)) 2 3]\<rparr> \<and>
      EmitStmt (ReturnStmt (Some (Expr [] True 1))) \<sigma>T = Inr \<sigma>T')"
proof -
  let ?\<sigma> = "start False (ValueTy 0)"
  let ?\<sigma>' = "\<lparr>Heap =
        [Some \<lparr>bb_name = ''entry'', bb_insts = [Op 5, Op 0, CondBr (NotZero (Value 1)) 2 3]\<rparr>,
         Some \<lparr>bb_name = ''ifend'', bb_insts = []\<rparr>,
         Some \<lparr>bb_name = ''ifthen'', bb_insts = [Ret (Value 1)]\<rparr>,
         Some \<lparr>bb_name = ''ifelse'', bb_insts = [Br 1]\<rparr>,
         Some \<lparr>bb_name = [], bb_insts = [Br 1]\<rparr>],
        FnBlocks = [0, 2, 4, 3, 1], InsertBlock = 1, LabelMap = [],
        FnIsVoid = False, FnRetTy = ValueTy 0, Output = [], NDEBUG = False\<rparr>"
  have run: "EmitIfStmt (Expr [5] True 1) (ReturnStmt (Some (Expr [] True 1))) (Some NullStmt) ?\<sigma>
      = Inr ?\<sigma>'"
    by (simp add: lower_defs)
  have cur: "getBlock ?\<sigma> (InsertBlock ?\<sigma>) = Some \<lparr>bb_name = ''entry'', bb_insts = []\<rparr>"
    by (simp add: start_def getBlock_def)
  have len: "length (Heap ?\<sigma>) = 1" "InsertBlock ?\<sigma> = 0" "FnBlocks ?\<sigma> = [0]"
    by (simp_all add: start_def)
  from EmitIfStmt_shape [OF run cur] obtain \<sigma>T \<sigma>T' where
    "length (Heap \<sigma>T) = length (Heap ?\<sigma>) + (case Some NullStmt of None \<Rightarrow> 2 | Some _ \<Rightarrow> 3)"
    "InsertBlock \<sigma>T = length (Heap ?\<sigma>) + 1"
    "FnBlocks \<sigma>T = FnBlocks ?\<sigma> @ [length (Heap ?\<sigma>) + 1]"
    "getBlock \<sigma>T (InsertBlock ?\<sigma>) =
        Some (\<lparr>bb_name = ''entry'', bb_insts = []\<rparr>\<lparr>bb_insts :=
           bb_insts \<lparr>bb_name = ''entry'', bb_insts = []\<rparr> @ map Op (expr_code (Expr [5] True 1)) @
                [Op 0, CondBr (NotZero (Value (expr_val (Expr [5] True 1)))) (length (Heap ?\<sigma>) + 1)
                   (case Some NullStmt of None \<Rightarrow> length (Heap ?\<sigma>)
                    | Some _ \<Rightarrow> length (Heap ?\<sigma>) + 2)]\<rparr>)"
    "EmitStmt (ReturnStmt (Some (Expr [] True 1))) \<sigma>T = Inr \<sigma>T'"
    by (elim exE conjE)
  then have "length (Heap \<sigma>T) = 4 \<and> InsertBlock \<sigma>T = 2 \<and> FnBlocks \<sigma>T = [0, 2] \<and>
      getBlock \<sigma>T 0 =
        Some \<lparr>bb_name = ''entry'', bb_insts = [Op 5, Op 0, CondBr (NotZero (Value 1)) 2 3]\<rparr> \<and>
      EmitStmt (ReturnStmt (Some (Expr [] True 1))) \<sigma>T = Inr \<sigma>T'"
    by (simp add: len)
  then have ex: "\<exists>\<sigma>T \<sigma>T'. length (Heap \<sigma>T) = 4 \<and> InsertBlock \<sigma>T = 2 \<and> FnBlocks \<sigma>T = [0, 2] \<and>
      getBlock \<sigma>T 0 =
        Some \<lparr>bb_name = ''entry'', bb_insts = [Op 5, Op 0, CondBr (NotZero (Value 1)) 2 3]\<rparr> \<and>
      EmitStmt (ReturnStmt (Some (Expr [] True 1))) \<sigma>T = Inr \<sigma>T'"
    by (intro exI)
  show ?thesis by (rule conjI [OF run ex])
qed

section \<open>Return statements\<close>

text \<open>
  A return statement with an aggregate operand in a function that is not void reaches
  \<^verbatim>\<open>assert(0 && "FIXME: aggregate return unimp")\<close>.  Compiled with assertions, the lowering
  fails there: no return is emitted and the enclosing compound statement ends with the
  failure.
\<close>

lemma EmitReturnStmt_aggregate_asserts:
  assumes "\<not> NDEBUG \<sigma>" and "\<not> FnIsVoid \<sigma>" and "\<not> isScalar (fst (EmitExpr E \<sigma>))"
  shows "EmitReturnStmt (Some E) \<sigma> = Inl AggregateReturnUnimp \<and>
         EmitStmt (ReturnStmt (Some E)) \<sigma> = Inl AggregateReturnUnimp \<and>
         EmitCompoundStmt (ReturnStmt (Some E) # Rest) \<sigma> = Inl AggregateReturnUnimp"
  using assms by (simp add: EmitReturnStmt_def EmitExpr_def)

text \<open>
  Compiled with \<^verbatim>\<open>NDEBUG\<close>, the assertion expands to nothing: the code of the operand has
  been appended, no terminator follows it, the new block without name becomes the insertion
  block and the function returns normally.
\<close>

lemma EmitReturnStmt_aggregate_release:
  assumes "NDEBUG \<sigma>" and "\<not> FnIsVoid \<sigma>" and "\<not> expr_scalar E"
    and "getBlock \<sigma> (InsertBlock \<sigma>) = Some B"
  shows "EmitReturnStmt (Some E) \<sigma> =
     Inr (\<sigma>\<lparr>Heap :=
              (Heap \<sigma>)[InsertBlock \<sigma> := Some (B\<lparr>bb_insts := bb_insts B @ map Op (expr_code E)\<rparr>)]
              @ [Some \<lparr>bb_name = [], bb_insts = []\<rparr>],
           FnBlocks := FnBlocks \<sigma> @ [length (Heap \<sigma>)],
           InsertBlock := length (Heap \<sigma>)\<rparr>)"
  using assms
  by (simp add: EmitReturnStmt_def EmitExpr_def Insert_Some new_BasicBlock_in_def
      new_BasicBlock_def SetInsertPoint_def)

text \<open>
  C8.  The claim (such a return statement always fails with an explicit error and never
  lets the lowering go on) is what the assertion in the source asks for, and the code breaks
  it when compiled with \<^verbatim>\<open>NDEBUG\<close> (with assertions compiled in it aborts there, see
  \<open>EmitReturnStmt_aggregate_asserts\<close>).  At the input below, \<open>return e; x;\<close> with an aggregate
  \<open>e\<close> in a function that is not void, the lowering returns normally: the block \<open>entry\<close> holds
  the code of \<open>e\<close> and no terminator, no error has been raised, and the statement that follows
  has been lowered into the next block.
\<close>

theorem EmitReturnStmt_aggregate_NDEBUG:
  "EmitStmt (CompoundStmt [ReturnStmt (Some (Expr [1] False 7)), ExprStmt (Expr [2] True 3)])
      (start False (ValueTy 0)\<lparr>NDEBUG := True\<rparr>) =
     Inr \<lparr>Heap = [Some \<lparr>bb_name = ''entry'', bb_insts = [Op 1]\<rparr>,
                  Some \<lparr>bb_name = [], bb_insts = [Op 2]\<rparr>],
          FnBlocks = [0, 1], InsertBlock = 1, LabelMap = [], FnIsVoid = False,
          FnRetTy = ValueTy 0, Output = [], NDEBUG = True\<rparr>"
  by (simp add: lower_defs)

text \<open>
  C5, as the claim states it, fails: in a function that is not void but whose lowered return
  type is void (a struct return), \<open>return;\<close> emits a void return, not a return of an
  undefined value.
\<close>

theorem EmitReturnStmt_nonvoid_struct_return:
  "\<not> FnIsVoid (start False VoidTy) \<and>
   EmitStmt (ReturnStmt None) (start False VoidTy) =
     Inr \<lparr>Heap = [Some \<lparr>bb_name = ''entry'', bb_insts = [RetVoid]\<rparr>,
                  Some \<lparr>bb_name = [], bb_insts = []\<rparr>],
          FnBlocks = [0, 1], InsertBlock = 1, LabelMap = [], FnIsVoid = False,
          FnRetTy = VoidTy, Output = [], NDEBUG = False\<rparr>"
  by code_simp

text \<open>
  C5, amended.  In a void function, and in any function when the operand is absent or
  scalar, \<open>EmitReturnStmt\<close> first appends the code of the operand, if there is one, to the
  insertion block.  Then, in a void function, it appends a void return; in a function that
  is not void and without operand, it appends a void return if the lowered return type is
  void and a return of an undefined value of that type otherwise; with a scalar operand it
  appends a return of the operand's value as it is.  It then allocates an empty block
  without name, appends it to the block list of the function and makes it the insertion
  block.  This holds however the file is compiled.
\<close>

theorem EmitReturnStmt_cases:
  assumes "getBlock \<sigma> (InsertBlock \<sigma>) = Some B"
    and "FnIsVoid \<sigma> \<or> (case RV of None \<Rightarrow> True | Some E \<Rightarrow> expr_scalar E)"
  shows "EmitReturnStmt RV \<sigma> =
     Inr (\<sigma>\<lparr>Heap :=
              (Heap \<sigma>)[InsertBlock \<sigma> := Some (B\<lparr>bb_insts := bb_insts B
                 @ (case RV of None \<Rightarrow> [] | Some E \<Rightarrow> map Op (expr_code E))
                 @ [if FnIsVoid \<sigma> then RetVoid
                    else case RV of
                        None \<Rightarrow> if FnRetTy \<sigma> = VoidTy then RetVoid
                                else Ret (UndefValue (FnRetTy \<sigma>))
                      | Some E \<Rightarrow> Ret (Value (expr_val E))]\<rparr>)]
              @ [Some \<lparr>bb_name = [], bb_insts = []\<rparr>],
           FnBlocks := FnBlocks \<sigma> @ [length (Heap \<sigma>)],
           InsertBlock := length (Heap \<sigma>)\<rparr>)"
proof -
  have lt: "InsertBlock \<sigma> < length (Heap \<sigma>)"
    using assms(1) by (rule getBlock_Some_less)
  have ins2: "\<And>Is Js. Insert Js (Insert Is \<sigma>) =
      \<sigma>\<lparr>Heap := (Heap \<sigma>)[InsertBlock \<sigma> := Some (B\<lparr>bb_insts := bb_insts B @ Is @ Js\<rparr>)]\<rparr>"
    using assms(1) lt by (simp add: Insert_def getBlock_def)
  show ?thesis
  proof (cases RV)
    case None
    then show ?thesis
      using assms(1) lt
      by (simp add: EmitReturnStmt_def CreateRetVoid_def CreateRet_def
          Insert_Some new_BasicBlock_in_def new_BasicBlock_def SetInsertPoint_def)
  next
    case (Some E)
    then have "FnIsVoid \<sigma> \<or> expr_scalar E" using assms(2) by simp
    then show ?thesis
      using lt Some
      by (auto simp: EmitReturnStmt_def EmitExpr_def CreateRetVoid_def CreateRet_def ins2
          new_BasicBlock_in_def new_BasicBlock_def SetInsertPoint_def)
  qed
qed

theorem EmitReturnStmt_cases_witness:
  "EmitReturnStmt (Some (Expr [4] True 7)) (start False (ValueTy 0)) =
     Inr \<lparr>Heap = [Some \<lparr>bb_name = ''entry'', bb_insts = [Op 4, Ret (Value 7)]\<rparr>,
                  Some \<lparr>bb_name = [], bb_insts = []\<rparr>],
          FnBlocks = [0, 1], InsertBlock = 1, LabelMap = [], FnIsVoid = False,
          FnRetTy = ValueTy 0, Output = [], NDEBUG = False\<rparr> \<and>
   EmitReturnStmt (Some (Expr [4] False 7)) (start True VoidTy\<lparr>NDEBUG := True\<rparr>) =
     Inr \<lparr>Heap = [Some \<lparr>bb_name = ''entry'', bb_insts = [Op 4, RetVoid]\<rparr>,
                  Some \<lparr>bb_name = [], bb_insts = []\<rparr>],
          FnBlocks = [0, 1], InsertBlock = 1, LabelMap = [], FnIsVoid = True,
          FnRetTy = VoidTy, Output = [], NDEBUG = True\<rparr>"
proof -
  have 1: "getBlock (start False (ValueTy 0)) (InsertBlock (start False (ValueTy 0))) =
      Some \<lparr>bb_name = ''entry'', bb_insts = []\<rparr>"
    by (simp add: start_def getBlock_def)
  have 2: "FnIsVoid (start False (ValueTy 0)) \<or>
      (case Some (Expr [4] True 7) of None \<Rightarrow> True | Some E \<Rightarrow> expr_scalar E)"
    by simp
  have 3: "getBlock (start True VoidTy\<lparr>NDEBUG := True\<rparr>)
        (InsertBlock (start True VoidTy\<lparr>NDEBUG := True\<rparr>)) =
      Some \<lparr>bb_name = ''entry'', bb_insts = []\<rparr>"
    by (simp add: start_def getBlock_def)
  have 4: "FnIsVoid (start True VoidTy\<lparr>NDEBUG := True\<rparr>) \<or>
      (case Some (Expr [4] False 7) of None \<Rightarrow> True | Some E \<Rightarrow> expr_scalar E)"
    by (simp add: start_def)
  show ?thesis
    using EmitReturnStmt_cases [OF 1 2] EmitReturnStmt_cases [OF 3 4]
    by (simp add: start_def)
qed

section \<open>The terminator invariant\<close>

lemma terminator_last_Nil [simp]: "terminator_last []"
  by (simp add: terminator_last_def)

lemma terminator_last_single [simp]: "terminator_last [i]"
  by (simp add: terminator_last_def)

lemma terminator_last_Ops [simp]: "terminator_last (map Op Ns)"
  by (auto simp: terminator_last_def list_all_iff dest!: in_set_butlastD)

lemma open_Ops [simp]: "list_all (\<lambda>i. \<not> isTerminator i) (map Op Ns)"
  by (simp add: list_all_iff)

lemma terminator_last_append:
  "list_all (\<lambda>i. \<not> isTerminator i) Is \<Longrightarrow> terminator_last Js \<Longrightarrow> terminator_last (Is @ Js)"
  by (cases "Js = []") (auto simp: terminator_last_def butlast_append list_all_iff dest: in_set_butlastD)

lemma open_block_unterminated:
  assumes "terminator_last (bb_insts B)" and "getTerminator B = None"
  shows "open_block B"
proof (cases "bb_insts B = []")
  case True
  then show ?thesis by (simp add: open_block_def)
next
  case False
  then have "bb_insts B = butlast (bb_insts B) @ [last (bb_insts B)]" by simp
  moreover have "\<not> isTerminator (last (bb_insts B))"
    using assms(2) False by (simp add: getTerminator_def split: if_splits)
  ultimately show ?thesis
    using assms(1) unfolding open_block_def terminator_last_def
    by (metis list.pred_inject(1,2) list_all_append)
qed

lemma cgf_ok_iff:
  "cgf_ok \<sigma> \<longleftrightarrow>
     (\<forall>b B. getBlock \<sigma> b = Some B \<longrightarrow> terminator_last (bb_insts B)) \<and>
     (\<forall>b \<in> set (FnBlocks \<sigma>). getBlock \<sigma> b \<noteq> None) \<and>
     (\<forall>b \<in> snd ` set (LabelMap \<sigma>). b < length (Heap \<sigma>)) \<and>
     distinct (map snd (LabelMap \<sigma>))"
proof -
  have "list_all (\<lambda>c. case c of None \<Rightarrow> True | Some B \<Rightarrow> terminator_last (bb_insts B)) (Heap \<sigma>)
      \<longleftrightarrow> (\<forall>b B. getBlock \<sigma> b = Some B \<longrightarrow> terminator_last (bb_insts B))"
    by (auto simp: list_all_length getBlock_def split: option.splits if_splits)
  then show ?thesis
    by (auto simp: cgf_ok_def list_all_iff)
qed

lemma pending_iff:
  "pending Ls \<sigma> \<longleftrightarrow>
     (\<forall>l \<in> set Ls. \<forall>b. map_of (LabelMap \<sigma>) l = Some b \<longrightarrow>
        b \<noteq> InsertBlock \<sigma> \<and> (\<exists>B. getBlock \<sigma> b = Some B \<and> bb_insts B = []))"
proof -
  have "(case map_of (LabelMap \<sigma>) l of
           None \<Rightarrow> True
         | Some b \<Rightarrow> b \<noteq> InsertBlock \<sigma> \<and>
             (case getBlock \<sigma> b of None \<Rightarrow> False | Some B \<Rightarrow> bb_insts B = [])) \<longleftrightarrow>
        (\<forall>b. map_of (LabelMap \<sigma>) l = Some b \<longrightarrow>
           b \<noteq> InsertBlock \<sigma> \<and> (\<exists>B. getBlock \<sigma> b = Some B \<and> bb_insts B = []))" for l
    by (cases "map_of (LabelMap \<sigma>) l"; simp split: option.splits)
  then show ?thesis by (simp add: pending_def list_all_iff)
qed

lemma insert_open_iff:
  "insert_open \<sigma> \<longleftrightarrow> (\<exists>B. getBlock \<sigma> (InsertBlock \<sigma>) = Some B \<and> open_block B)"
  by (auto simp: insert_open_def split: option.splits)

lemma reserved_iff:
  "reserved \<sigma> b \<longleftrightarrow>
     (\<exists>B. getBlock \<sigma> b = Some B \<and> bb_insts B = []) \<and> b \<noteq> InsertBlock \<sigma> \<and>
     b \<notin> ran (map_of (LabelMap \<sigma>))"
  by (auto simp: reserved_def split: option.splits)

lemma pending_append: "pending (Ls @ Ms) \<sigma> \<longleftrightarrow> pending Ls \<sigma> \<and> pending Ms \<sigma>"
  by (simp add: pending_def)

lemma pending_Cons: "pending (L # Ls) \<sigma> \<Longrightarrow> pending Ls \<sigma>"
  by (simp add: pending_def)

text \<open>Appending instructions to the insertion block.\<close>

lemma cgf_ok_Insert:
  assumes "cgf_ok \<sigma>" and "insert_open \<sigma>" and "terminator_last Is"
  shows "cgf_ok (Insert Is \<sigma>)"
  using assms unfolding cgf_ok_iff insert_open_iff open_block_def
  by (auto simp: terminator_last_append)

lemma insert_open_Insert:
  assumes "insert_open \<sigma>" and "list_all (\<lambda>i. \<not> isTerminator i) Is"
  shows "insert_open (Insert Is \<sigma>)"
  using assms unfolding insert_open_iff open_block_def by auto

lemma pending_Insert: "pending Ls \<sigma> \<Longrightarrow> pending Ls (Insert Is \<sigma>)"
  unfolding pending_iff by auto

lemma reserved_Insert: "reserved \<sigma> b \<Longrightarrow> reserved (Insert Is \<sigma>) b"
  unfolding reserved_iff by auto

text \<open>Allocating a block.\<close>

lemma cgf_ok_new_BasicBlock: "cgf_ok \<sigma> \<Longrightarrow> cgf_ok (snd (new_BasicBlock N \<sigma>))"
  unfolding cgf_ok_iff by (auto split: if_splits)

lemma insert_open_new_BasicBlock: "insert_open \<sigma> \<Longrightarrow> insert_open (snd (new_BasicBlock N \<sigma>))"
  unfolding insert_open_iff by (auto dest: getBlock_Some_less)

lemma pending_new_BasicBlock: "pending Ls \<sigma> \<Longrightarrow> pending Ls (snd (new_BasicBlock N \<sigma>))"
  unfolding pending_iff by (auto dest: getBlock_Some_less)

lemma reserved_new_BasicBlock: "reserved \<sigma> b \<Longrightarrow> reserved (snd (new_BasicBlock N \<sigma>)) b"
  unfolding reserved_iff by (auto dest: getBlock_Some_less)

lemma reserved_new:
  assumes "cgf_ok \<sigma>" and "insert_open \<sigma>"
  shows "reserved (snd (new_BasicBlock N \<sigma>)) (length (Heap \<sigma>))"
proof -
  have "InsertBlock \<sigma> < length (Heap \<sigma>)"
    using assms(2) unfolding insert_open_iff by (auto dest: getBlock_Some_less)
  moreover have "length (Heap \<sigma>) \<notin> ran (map_of (LabelMap \<sigma>))"
    using assms(1) ran_map_of_subset [of "LabelMap \<sigma>"] unfolding cgf_ok_iff by fastforce
  ultimately show ?thesis unfolding reserved_iff by auto
qed

text \<open>Opening a block that is live, empty and not the insertion block.\<close>

lemma cgf_ok_EmitBlock:
  assumes "cgf_ok \<sigma>" and "getBlock \<sigma> BB = Some B0" and "BB \<noteq> InsertBlock \<sigma>"
  shows "cgf_ok (EmitBlock BB \<sigma>)"
proof (cases "getBlock \<sigma> (InsertBlock \<sigma>)")
  case None
  then show ?thesis
    using assms unfolding cgf_ok_iff by (auto simp: EmitBlock_dangling)
next
  case (Some LastBB)
  have tl: "terminator_last (bb_insts LastBB)" using assms(1) Some unfolding cgf_ok_iff by blast
  consider (t) "getTerminator LastBB \<noteq> None"
    | (p) "getTerminator LastBB = None" "bb_insts LastBB = []" "bb_name LastBB = []"
    | (f) "getTerminator LastBB = None" "\<not> (bb_insts LastBB = [] \<and> bb_name LastBB = [])"
    by blast
  then show ?thesis
  proof cases
    case t
    then show ?thesis
      using assms unfolding cgf_ok_iff by (auto simp: EmitBlock_terminated [OF Some])
  next
    case p
    then show ?thesis
      using assms unfolding cgf_ok_iff
      by (auto simp: EmitBlock_placeholder [OF Some] split: if_splits)
  next
    case f
    have "open_block LastBB" using tl f(1) by (rule open_block_unterminated)
    then have "terminator_last (bb_insts LastBB @ [Br BB])"
      unfolding open_block_def by (simp add: terminator_last_append)
    then show ?thesis
      using assms Some unfolding cgf_ok_iff
      by (auto simp: EmitBlock_fallthrough [OF Some f] CreateBr_def split: if_splits)
  qed
qed

lemma insert_open_EmitBlock:
  assumes "getBlock \<sigma> BB = Some B0" and "bb_insts B0 = []" and "BB \<noteq> InsertBlock \<sigma>"
  shows "insert_open (EmitBlock BB \<sigma>)"
  using assms unfolding insert_open_iff by (simp add: open_block_def)

lemma pending_EmitBlock:
  assumes "pending Ls \<sigma>" and "BB \<notin> label_blocks \<sigma> Ls"
  shows "pending Ls (EmitBlock BB \<sigma>)"
  using assms unfolding pending_iff label_blocks_def by auto

lemma reserved_EmitBlock:
  assumes "reserved \<sigma> b" and "b \<noteq> BB"
  shows "reserved (EmitBlock BB \<sigma>) b"
  using assms unfolding reserved_iff by auto

lemma EmitBlock_reserved:
  assumes "cgf_ok \<sigma>" and "pending Ls \<sigma>" and "reserved \<sigma> BB"
  shows "cgf_ok (EmitBlock BB \<sigma>) \<and> insert_open (EmitBlock BB \<sigma>) \<and> pending Ls (EmitBlock BB \<sigma>)"
proof -
  from assms(3) obtain B0 where B0: "getBlock \<sigma> BB = Some B0" "bb_insts B0 = []"
    and ne: "BB \<noteq> InsertBlock \<sigma>" and nl: "BB \<notin> ran (map_of (LabelMap \<sigma>))"
    unfolding reserved_iff by blast
  have "BB \<notin> label_blocks \<sigma> Ls" using nl label_blocks_ran by blast
  then show ?thesis
    using cgf_ok_EmitBlock [OF assms(1) B0(1) ne] insert_open_EmitBlock [OF B0 ne]
      pending_EmitBlock [OF assms(2)] by blast
qed

text \<open>Looking a label up.\<close>

lemma map_of_inj:
  assumes "distinct (map snd xs)" and "map_of xs k = Some v" and "map_of xs k' = Some v"
  shows "k = k'"
proof -
  have "(k, v) \<in> set xs" "(k', v) \<in> set xs" using assms(2,3) by (auto dest: map_of_SomeD)
  moreover have "inj_on snd (set xs)" using assms(1) by (simp add: distinct_map)
  ultimately have "(k, v) = (k', v)" by (intro inj_onD [of snd "set xs"]) simp_all
  then show ?thesis by simp
qed

lemma getBasicBlockForLabel_inv:
  assumes "cgf_ok \<sigma>" and "insert_open \<sigma>" and "pending Ls \<sigma>"
    and "getBasicBlockForLabel L \<sigma> = (b, \<sigma>1)"
  shows "cgf_ok \<sigma>1 \<and> insert_open \<sigma>1 \<and> pending Ls \<sigma>1 \<and> map_of (LabelMap \<sigma>1) L = Some b"
proof (cases "map_of (LabelMap \<sigma>) L")
  case None
  then have eq: "b = length (Heap \<sigma>)"
    "\<sigma>1 = \<sigma>\<lparr>Heap := Heap \<sigma> @ [Some \<lparr>bb_name = label_name L, bb_insts = []\<rparr>],
             LabelMap := (L, length (Heap \<sigma>)) # LabelMap \<sigma>\<rparr>"
    using assms(4) by (auto simp: getBasicBlockForLabel_unbound)
  have lt: "InsertBlock \<sigma> < length (Heap \<sigma>)"
    using assms(2) unfolding insert_open_iff by (auto dest: getBlock_Some_less)
  have gb: "getBlock \<sigma>1 c = (if c = length (Heap \<sigma>)
      then Some \<lparr>bb_name = label_name L, bb_insts = []\<rparr> else getBlock \<sigma> c)" for c
    unfolding eq by (simp add: getBlock_def nth_append)
  have 1: "cgf_ok \<sigma>1"
    using assms(1) unfolding cgf_ok_iff gb by (auto simp: eq split: if_splits)
  have 2: "insert_open \<sigma>1"
    using assms(2) lt unfolding insert_open_iff gb by (simp add: eq)
  have 3: "pending Ls \<sigma>1"
    using assms(3) lt unfolding pending_iff gb by (auto simp: eq dest: getBlock_Some_less)
  show ?thesis using 1 2 3 by (simp add: eq)
next
  case (Some b')
  then show ?thesis using assms by (simp add: getBasicBlockForLabel_bound)
qed

text \<open>The placeholder after a terminator.\<close>

lemma placeholder_inv:
  assumes "cgf_ok \<sigma>" and "pending Ls \<sigma>" and "new_BasicBlock_in [] \<sigma> = (BB, \<sigma>1)"
  shows "cgf_ok (SetInsertPoint BB \<sigma>1) \<and> insert_open (SetInsertPoint BB \<sigma>1) \<and>
         pending Ls (SetInsertPoint BB \<sigma>1)"
proof -
  have eq: "BB = length (Heap \<sigma>)"
    "\<sigma>1 = (snd (new_BasicBlock [] \<sigma>))\<lparr>FnBlocks := FnBlocks \<sigma> @ [length (Heap \<sigma>)]\<rparr>"
    using assms(3) by (auto simp: new_BasicBlock_in_def split_beta)
  have 1: "cgf_ok (SetInsertPoint BB \<sigma>1)"
    using assms(1) unfolding cgf_ok_iff eq by (auto split: if_splits)
  have 2: "insert_open (SetInsertPoint BB \<sigma>1)"
    unfolding insert_open_iff eq by (simp add: open_block_def)
  have 3: "pending Ls (SetInsertPoint BB \<sigma>1)"
    using assms(2) unfolding pending_iff eq by (auto dest: getBlock_Some_less)
  show ?thesis using 1 2 3 by simp
qed

lemma inv_Output [simp]:
  "cgf_ok (\<sigma>\<lparr>Output := Out\<rparr>) = cgf_ok \<sigma>"
  "insert_open (\<sigma>\<lparr>Output := Out\<rparr>) = insert_open \<sigma>"
  "pending Ls (\<sigma>\<lparr>Output := Out\<rparr>) = pending Ls \<sigma>"
  by (simp_all add: cgf_ok_iff insert_open_iff pending_iff)

text \<open>A reserved block stays reserved while a statement is lowered.\<close>

lemma reserved_EmitStmt:
  assumes "reserved \<sigma> b" and "EmitStmt S \<sigma> = Inr \<sigma>'"
  shows "reserved \<sigma>' b"
proof -
  note fr = EmitStmt_frame [OF assms(2)]
  from assms(1) obtain B where B: "getBlock \<sigma> b = Some B" "bb_insts B = []"
    and ne: "b \<noteq> InsertBlock \<sigma>" and nl: "b \<notin> ran (map_of (LabelMap \<sigma>))"
    unfolding reserved_iff by blast
  have lt: "b < length (Heap \<sigma>)" using B(1) by (rule getBlock_Some_less)
  have nx: "b \<notin> insert (InsertBlock \<sigma>) (label_blocks \<sigma> (labels_of S))"
    using ne nl label_blocks_ran by blast
  have 1: "getBlock \<sigma>' b = getBlock \<sigma> b" using fr lt nx unfolding frame_def by blast
  have 2: "b \<noteq> InsertBlock \<sigma>'" using frame_InsertBlock [OF fr] lt nx by auto
  have 3: "b \<notin> ran (map_of (LabelMap \<sigma>'))" using frame_ran [OF fr, of b] nl lt by auto
  show ?thesis unfolding reserved_iff using 1 2 3 B by simp
qed

lemma cgf_ok_labels: "cgf_ok \<sigma> \<Longrightarrow> distinct (map snd (LabelMap \<sigma>))"
  unfolding cgf_ok_iff by blast

lemma EmitGotoStmt_inv:
  assumes "cgf_ok \<sigma>" and "insert_open \<sigma>" and "pending Ls \<sigma>"
  shows "cgf_ok (EmitGotoStmt L \<sigma>) \<and> insert_open (EmitGotoStmt L \<sigma>) \<and>
         pending Ls (EmitGotoStmt L \<sigma>)"
proof -
  obtain b \<sigma>1 where g: "getBasicBlockForLabel L \<sigma> = (b, \<sigma>1)" by (cases "getBasicBlockForLabel L \<sigma>")
  obtain n \<sigma>3 where n: "new_BasicBlock_in [] (CreateBr b \<sigma>1) = (n, \<sigma>3)"
    by (cases "new_BasicBlock_in [] (CreateBr b \<sigma>1)")
  from getBasicBlockForLabel_inv [OF assms g]
  have 1: "cgf_ok \<sigma>1" "insert_open \<sigma>1" "pending Ls \<sigma>1" by simp_all
  have 2: "cgf_ok (CreateBr b \<sigma>1)" "pending Ls (CreateBr b \<sigma>1)"
    unfolding CreateBr_def using 1 by (simp_all add: cgf_ok_Insert pending_Insert)
  from placeholder_inv [OF 2 n] show ?thesis
    by (simp add: EmitGotoStmt_def g n)
qed

lemma EmitReturnStmt_inv:
  assumes "cgf_ok \<sigma>" and "insert_open \<sigma>" and "pending Ls \<sigma>" and "EmitReturnStmt RV \<sigma> = Inr \<sigma>'"
  shows "cgf_ok \<sigma>' \<and> insert_open \<sigma>' \<and> pending Ls \<sigma>'"
proof -
  define \<sigma>e where "\<sigma>e = (case RV of None \<Rightarrow> \<sigma> | Some E \<Rightarrow> snd (EmitExpr E \<sigma>))"
  have e: "cgf_ok \<sigma>e" "insert_open \<sigma>e" "pending Ls \<sigma>e"
    unfolding \<sigma>e_def using assms(1-3)
    by (auto simp: EmitExpr_def cgf_ok_Insert insert_open_Insert pending_Insert split: option.splits)
  from EmitReturnStmt_Inr [OF assms(4)] obtain \<sigma>t where
    t: "\<sigma>t = \<sigma>e \<or> \<sigma>t = Insert [RetVoid] \<sigma>e \<or> (\<exists>v. \<sigma>t = Insert [Ret v] \<sigma>e)"
    and eq: "\<sigma>' = SetInsertPoint (fst (new_BasicBlock_in [] \<sigma>t)) (snd (new_BasicBlock_in [] \<sigma>t))"
    unfolding \<sigma>e_def by blast
  have "cgf_ok \<sigma>t" "pending Ls \<sigma>t"
    using t e by (auto simp: cgf_ok_Insert pending_Insert)
  then show ?thesis
    unfolding eq using placeholder_inv [of \<sigma>t Ls] by (metis prod.collapse)
qed

lemma if_head_inv:
  assumes "cgf_ok \<sigma>" and "insert_open \<sigma>" and "pending Ls \<sigma>"
  shows "cgf_ok (if_head Cond Else \<sigma>) \<and> insert_open (if_head Cond Else \<sigma>) \<and>
         pending Ls (if_head Cond Else \<sigma>) \<and>
         reserved (if_head Cond Else \<sigma>) (length (Heap \<sigma>)) \<and>
         (Else \<noteq> None \<longrightarrow> reserved (if_head Cond Else \<sigma>) (length (Heap \<sigma>) + 2))"
proof -
  let ?n = "length (Heap \<sigma>)"
  define \<sigma>2 where "\<sigma>2 = Insert [Op 0] (Insert (map Op (expr_code Cond)) \<sigma>)"
  define \<sigma>3 where "\<sigma>3 = snd (new_BasicBlock ''ifend'' \<sigma>2)"
  define \<sigma>4 where "\<sigma>4 = snd (new_BasicBlock ''ifthen'' \<sigma>3)"
  define \<sigma>5 where "\<sigma>5 = (case Else of None \<Rightarrow> \<sigma>4 | Some _ \<Rightarrow> snd (new_BasicBlock ''ifelse'' \<sigma>4))"
  define e where "e = (case Else of None \<Rightarrow> ?n | Some _ \<Rightarrow> ?n + 2)"
  define \<sigma>6 where "\<sigma>6 = CreateCondBr (NotZero (Value (expr_val Cond))) (Suc ?n) e \<sigma>5"
  have h: "if_head Cond Else \<sigma> = EmitBlock (Suc ?n) \<sigma>6"
    unfolding if_head_eq \<sigma>6_def \<sigma>5_def \<sigma>4_def \<sigma>3_def \<sigma>2_def e_def
    by (cases Else) simp_all
  have len: "length (Heap \<sigma>2) = ?n" "length (Heap \<sigma>3) = Suc ?n"
    by (simp_all add: \<sigma>2_def \<sigma>3_def)
  have 2: "cgf_ok \<sigma>2" "insert_open \<sigma>2" "pending Ls \<sigma>2"
    unfolding \<sigma>2_def using assms
    by (simp_all add: cgf_ok_Insert insert_open_Insert pending_Insert)
  have 3: "cgf_ok \<sigma>3" "insert_open \<sigma>3" "pending Ls \<sigma>3" "reserved \<sigma>3 ?n"
    unfolding \<sigma>3_def using 2 reserved_new [OF 2(1,2), of "''ifend''"]
    by (simp_all add: cgf_ok_new_BasicBlock insert_open_new_BasicBlock pending_new_BasicBlock len)
  have 4: "cgf_ok \<sigma>4" "insert_open \<sigma>4" "pending Ls \<sigma>4" "reserved \<sigma>4 ?n" "reserved \<sigma>4 (Suc ?n)"
    unfolding \<sigma>4_def using 3 reserved_new [OF 3(1,2), of "''ifthen''"]
    by (simp_all add: cgf_ok_new_BasicBlock insert_open_new_BasicBlock pending_new_BasicBlock
        reserved_new_BasicBlock len)
  have 5: "cgf_ok \<sigma>5" "insert_open \<sigma>5" "pending Ls \<sigma>5" "reserved \<sigma>5 ?n" "reserved \<sigma>5 (Suc ?n)"
    "Else \<noteq> None \<longrightarrow> reserved \<sigma>5 (?n + 2)"
    unfolding \<sigma>5_def using 4 reserved_new [OF 4(1,2), of "''ifelse''"]
    by (auto simp: cgf_ok_new_BasicBlock insert_open_new_BasicBlock pending_new_BasicBlock
        reserved_new_BasicBlock \<sigma>4_def len split: option.splits)
  have 6: "cgf_ok \<sigma>6" "pending Ls \<sigma>6" "reserved \<sigma>6 ?n" "reserved \<sigma>6 (Suc ?n)"
    "Else \<noteq> None \<longrightarrow> reserved \<sigma>6 (?n + 2)"
    unfolding \<sigma>6_def CreateCondBr_def using 5
    by (simp_all add: cgf_ok_Insert pending_Insert reserved_Insert)
  show ?thesis
    unfolding h using EmitBlock_reserved [OF 6(1,2,4)] 6(3,5)
    by (simp add: reserved_EmitBlock)
qed

lemma label_blocks_mem:
  "b \<in> label_blocks \<sigma> Ls \<longleftrightarrow> (\<exists>l \<in> set Ls. map_of (LabelMap \<sigma>) l = Some b)"
  by (simp add: label_blocks_def)

lemma EmitCompoundStmt_inv:
  assumes "\<And>S \<sigma> \<sigma>' P. S \<in> set Body \<Longrightarrow> cgf_ok \<sigma> \<Longrightarrow> insert_open \<sigma> \<Longrightarrow>
      distinct (labels_of S @ P) \<Longrightarrow> pending (labels_of S @ P) \<sigma> \<Longrightarrow> EmitStmt S \<sigma> = Inr \<sigma>' \<Longrightarrow>
      cgf_ok \<sigma>' \<and> insert_open \<sigma>' \<and> pending P \<sigma>'"
    and "cgf_ok \<sigma>" and "insert_open \<sigma>"
    and "distinct (labels_of_list Body @ P)" and "pending (labels_of_list Body @ P) \<sigma>"
    and "EmitCompoundStmt Body \<sigma> = Inr \<sigma>'"
  shows "cgf_ok \<sigma>' \<and> insert_open \<sigma>' \<and> pending P \<sigma>'"
  using assms
proof (induction Body arbitrary: \<sigma>)
  case Nil
  then show ?case by simp
next
  case (Cons S Rest)
  from Cons.prems(6) obtain \<sigma>m where
    s: "EmitStmt S \<sigma> = Inr \<sigma>m" and r: "EmitCompoundStmt Rest \<sigma>m = Inr \<sigma>'"
    by (auto split: sum.splits)
  have m: "cgf_ok \<sigma>m \<and> insert_open \<sigma>m \<and> pending (labels_of_list Rest @ P) \<sigma>m"
    by (rule Cons.prems(1) [OF _ Cons.prems(2,3) _ _ s]) (use Cons.prems(4,5) in simp_all)
  show ?case
  proof (rule Cons.IH [OF _ _ _ _ _ r])
    fix S' \<sigma>a \<sigma>b P'
    assume "S' \<in> set Rest" "cgf_ok \<sigma>a" "insert_open \<sigma>a" "distinct (labels_of S' @ P')"
      "pending (labels_of S' @ P') \<sigma>a" "EmitStmt S' \<sigma>a = Inr \<sigma>b"
    then show "cgf_ok \<sigma>b \<and> insert_open \<sigma>b \<and> pending P' \<sigma>b"
      using Cons.prems(1) [of S' \<sigma>a P' \<sigma>b] by simp
  qed (use m Cons.prems(4) in simp_all)
qed

lemma EmitStmt_inv:
  assumes "cgf_ok \<sigma>" and "insert_open \<sigma>"
    and "distinct (labels_of S @ P)" and "pending (labels_of S @ P) \<sigma>"
    and "EmitStmt S \<sigma> = Inr \<sigma>'"
  shows "cgf_ok \<sigma>' \<and> insert_open \<sigma>' \<and> pending P \<sigma>'"
  using assms
proof (induction S arbitrary: \<sigma> \<sigma>' P)
  case NullStmt
  then show ?case by simp
next
  case (CompoundStmt Body)
  show ?case
    by (rule EmitCompoundStmt_inv [OF CompoundStmt.IH CompoundStmt.prems(1,2)])
       (use CompoundStmt.prems in simp_all)
next
  case (LabelStmt L S)
  obtain b \<sigma>1 where g: "getBasicBlockForLabel L \<sigma> = (b, \<sigma>1)" by (cases "getBasicBlockForLabel L \<sigma>")
  have s: "EmitStmt S (EmitBlock b \<sigma>1) = Inr \<sigma>'"
    using LabelStmt.prems(5) by (simp add: EmitLabelStmt.simps g)
  from getBasicBlockForLabel_inv [OF LabelStmt.prems(1,2,4) g]
  have 1: "cgf_ok \<sigma>1" "insert_open \<sigma>1" "pending (labels_of (LabelStmt L S) @ P) \<sigma>1"
    and b: "map_of (LabelMap \<sigma>1) L = Some b" by simp_all
  from 1(3) b obtain B0 where B0: "getBlock \<sigma>1 b = Some B0" "bb_insts B0 = []"
    and ne: "b \<noteq> InsertBlock \<sigma>1"
    unfolding pending_iff by auto
  have rest: "pending (labels_of S @ P) \<sigma>1" using 1(3) by (simp add: pending_def)
  have "b \<notin> label_blocks \<sigma>1 (labels_of S @ P)"
  proof
    assume "b \<in> label_blocks \<sigma>1 (labels_of S @ P)"
    then obtain l where l: "l \<in> set (labels_of S @ P)" "map_of (LabelMap \<sigma>1) l = Some b"
      unfolding label_blocks_mem by blast
    then have "l = L" using map_of_inj [OF cgf_ok_labels [OF 1(1)] _ b] by blast
    then show False using l(1) LabelStmt.prems(3) by simp
  qed
  then have 2: "cgf_ok (EmitBlock b \<sigma>1)" "insert_open (EmitBlock b \<sigma>1)"
    "pending (labels_of S @ P) (EmitBlock b \<sigma>1)"
    using cgf_ok_EmitBlock [OF 1(1) B0(1) ne] insert_open_EmitBlock [OF B0 ne]
      pending_EmitBlock [OF rest] by simp_all
  show ?case
    by (rule LabelStmt.IH [OF 2(1,2) _ 2(3) s]) (use LabelStmt.prems(3) in simp)
next
  case (GotoStmt L)
  then show ?case using EmitGotoStmt_inv [of \<sigma> P L] by auto
next
  case (IfStmt Cond Then Else)
  let ?n = "length (Heap \<sigma>)"
  let ?h = "if_head Cond Else \<sigma>"
  let ?E = "case Else of None \<Rightarrow> [] | Some El \<Rightarrow> labels_of El"
  have d: "distinct (labels_of Then @ ?E @ P)" and p: "pending (labels_of Then @ ?E @ P) \<sigma>"
    using IfStmt.prems(3,4) by simp_all
  from if_head_inv [OF IfStmt.prems(1,2) p]
  have h: "cgf_ok ?h" "insert_open ?h" "pending (labels_of Then @ ?E @ P) ?h"
    "reserved ?h ?n" "Else \<noteq> None \<longrightarrow> reserved ?h (?n + 2)"
    by simp_all
  from IfStmt.prems(5) obtain \<sigma>7 where
    t: "EmitStmt Then ?h = Inr \<sigma>7"
    by (auto simp: EmitIfStmt_unfold split: sum.splits)
  from IfStmt.IH(1) [OF h(1,2) d h(3) t]
  have 7: "cgf_ok \<sigma>7" "insert_open \<sigma>7" "pending (?E @ P) \<sigma>7" by simp_all
  have r7: "reserved \<sigma>7 ?n" "Else \<noteq> None \<longrightarrow> reserved \<sigma>7 (?n + 2)"
    using h(4,5) reserved_EmitStmt [OF _ t] by blast+
  have 8: "cgf_ok (CreateBr ?n \<sigma>7)" "pending (?E @ P) (CreateBr ?n \<sigma>7)"
    "reserved (CreateBr ?n \<sigma>7) ?n" "Else \<noteq> None \<longrightarrow> reserved (CreateBr ?n \<sigma>7) (?n + 2)"
    unfolding CreateBr_def using 7 r7
    by (simp_all add: cgf_ok_Insert pending_Insert reserved_Insert)
  show ?case
  proof (cases Else)
    case None
    then have eq: "\<sigma>' = EmitBlock ?n (CreateBr ?n \<sigma>7)"
      using IfStmt.prems(5) t by (simp add: EmitIfStmt_unfold)
    show ?thesis
      unfolding eq using EmitBlock_reserved [OF 8(1,2,3)] None by (simp add: pending_append)
  next
    case (Some El)
    then obtain \<sigma>8 where
      e: "EmitStmt El (EmitBlock (?n + 2) (CreateBr ?n \<sigma>7)) = Inr \<sigma>8"
      and eq: "\<sigma>' = EmitBlock ?n (CreateBr ?n \<sigma>8)"
      using IfStmt.prems(5) t by (auto simp: EmitIfStmt_unfold split: sum.splits)
    let ?\<sigma>9 = "EmitBlock (?n + 2) (CreateBr ?n \<sigma>7)"
    have r: "reserved (CreateBr ?n \<sigma>7) (?n + 2)" using 8(4) Some by simp
    from EmitBlock_reserved [OF 8(1,2) r]
    have 9: "cgf_ok ?\<sigma>9" "insert_open ?\<sigma>9" "pending (labels_of El @ P) ?\<sigma>9"
      by (simp_all add: Some)
    have r9: "reserved ?\<sigma>9 ?n" using 8(3) by (simp add: reserved_EmitBlock)
    have dE: "distinct (labels_of El @ P)" using d Some by simp
    from IfStmt.IH(2) [OF _ 9(1,2) dE 9(3) e]
    have 10: "cgf_ok \<sigma>8" "insert_open \<sigma>8" "pending P \<sigma>8" by (simp_all add: Some)
    have r10: "reserved \<sigma>8 ?n" using reserved_EmitStmt [OF r9 e] .
    have 11: "cgf_ok (CreateBr ?n \<sigma>8)" "pending P (CreateBr ?n \<sigma>8)"
      "reserved (CreateBr ?n \<sigma>8) ?n"
      unfolding CreateBr_def using 10 r10
      by (simp_all add: cgf_ok_Insert pending_Insert reserved_Insert)
    show ?thesis
      unfolding eq using EmitBlock_reserved [OF 11] by simp
  qed
next
  case (ReturnStmt RV)
  then show ?case using EmitReturnStmt_inv [of \<sigma> P RV \<sigma>'] by simp
next
  case (DeclStmt D)
  then show ?case
    by (auto simp: EmitDeclStmt_def cgf_ok_Insert insert_open_Insert pending_Insert)
next
  case (ExprStmt E)
  then show ?case
    by (auto simp: EmitExpr_def cgf_ok_Insert insert_open_Insert pending_Insert)
next
  case (OtherStmt d)
  then show ?case by auto
qed

lemma terminator_last_index:
  assumes "terminator_last Is" and "i < length Is" and "isTerminator (Is ! i)"
  shows "Suc i = length Is"
proof (rule ccontr)
  assume "Suc i \<noteq> length Is"
  then have lt: "i < length (butlast Is)" using assms(2) by simp
  then have "butlast Is ! i \<in> set (butlast Is)" by (rule nth_mem)
  moreover have "butlast Is ! i = Is ! i" using lt by (simp add: nth_butlast)
  ultimately show False using assms(1,3) by (auto simp: terminator_last_def list_all_iff)
qed

lemma terminator_last_count:
  assumes "terminator_last Is"
  shows "length (filter isTerminator Is) \<le> 1"
proof (cases "Is = []")
  case True
  then show ?thesis by simp
next
  case False
  then have "Is = butlast Is @ [last Is]" by simp
  then have "filter isTerminator Is = filter isTerminator (butlast Is) @ filter isTerminator [last Is]"
    by (metis filter_append)
  moreover have "filter isTerminator (butlast Is) = []"
    using assms by (auto simp: terminator_last_def list_all_iff filter_empty_conv)
  ultimately show ?thesis by simp
qed

text \<open>
  C1.  The terminator invariant.  Lowering starts in a well-formed state whose insertion
  block is open (such as the entry of a function), on a statement tree whose label
  statements are distinct nodes that have not been lowered before.  Then every block in the
  block list that the lowering produces is live, a terminator in it is its last instruction,
  and it holds at most one terminator.
\<close>

theorem terminator_invariant:
  assumes "cgf_ok \<sigma>" and "insert_open \<sigma>"
    and "distinct (labels_of S)" and "pending (labels_of S) \<sigma>"
    and "EmitStmt S \<sigma> = Inr \<sigma>'"
  shows "\<forall>b \<in> set (FnBlocks \<sigma>'). \<exists>B. getBlock \<sigma>' b = Some B \<and>
           (\<forall>i < length (bb_insts B). isTerminator (bb_insts B ! i) \<longrightarrow> Suc i = length (bb_insts B)) \<and>
           length (filter isTerminator (bb_insts B)) \<le> 1"
proof
  fix b assume b: "b \<in> set (FnBlocks \<sigma>')"
  have "cgf_ok \<sigma>'"
    using EmitStmt_inv [of \<sigma> S "[]" \<sigma>'] assms by simp
  then obtain B where B: "getBlock \<sigma>' b = Some B" "terminator_last (bb_insts B)"
    using b unfolding cgf_ok_iff by blast
  show "\<exists>B. getBlock \<sigma>' b = Some B \<and>
           (\<forall>i < length (bb_insts B). isTerminator (bb_insts B ! i) \<longrightarrow> Suc i = length (bb_insts B)) \<and>
           length (filter isTerminator (bb_insts B)) \<le> 1"
    using B terminator_last_index [OF B(2)] terminator_last_count [OF B(2)] by blast
qed

theorem terminator_invariant_witness:
  "EmitStmt (CompoundStmt
       [IfStmt (Expr [5] True 1) (ReturnStmt (Some (Expr [] True 1))) None,
        GotoStmt (Label 0 ''L''),
        ExprStmt (Expr [6] True 2),
        LabelStmt (Label 0 ''L'') (ReturnStmt (Some (Expr [7] True 3)))]) (start False (ValueTy 0)) =
     Inr \<lparr>Heap =
        [Some \<lparr>bb_name = ''entry'', bb_insts = [Op 5, Op 0, CondBr (NotZero (Value 1)) 2 1]\<rparr>,
         Some \<lparr>bb_name = ''ifend'', bb_insts = [Br 4]\<rparr>,
         Some \<lparr>bb_name = ''ifthen'', bb_insts = [Ret (Value 1)]\<rparr>,
         Some \<lparr>bb_name = [], bb_insts = [Br 1]\<rparr>,
         Some \<lparr>bb_name = ''L'', bb_insts = [Op 7, Ret (Value 3)]\<rparr>,
         Some \<lparr>bb_name = [], bb_insts = [Op 6, Br 4]\<rparr>,
         Some \<lparr>bb_name = [], bb_insts = []\<rparr>],
        FnBlocks = [0, 2, 3, 1, 5, 4, 6], InsertBlock = 6,
        LabelMap = [(Label 0 ''L'', 4)], FnIsVoid = False,
        FnRetTy = ValueTy 0, Output = [], NDEBUG = False\<rparr> \<and>
   (\<exists>B. getBlock \<lparr>Heap =
        [Some \<lparr>bb_name = ''entry'', bb_insts = [Op 5, Op 0, CondBr (NotZero (Value 1)) 2 1]\<rparr>,
         Some \<lparr>bb_name = ''ifend'', bb_insts = [Br 4]\<rparr>,
         Some \<lparr>bb_name = ''ifthen'', bb_insts = [Ret (Value 1)]\<rparr>,
         Some \<lparr>bb_name = [], bb_insts = [Br 1]\<rparr>,
         Some \<lparr>bb_name = ''L'', bb_insts = [Op 7, Ret (Value 3)]\<rparr>,
         Some \<lparr>bb_name = [], bb_insts = [Op 6, Br 4]\<rparr>,
         Some \<lparr>bb_name = [], bb_insts = []\<rparr>],
        FnBlocks = [0, 2, 3, 1, 5, 4, 6], InsertBlock = 6,
        LabelMap = [(Label 0 ''L'', 4)], FnIsVoid = False,
        FnRetTy = ValueTy 0, Output = [], NDEBUG = False\<rparr> 4 = Some B \<and>
      length (filter isTerminator (bb_insts B)) \<le> 1)"
proof -
  let ?\<sigma> = "start False (ValueTy 0)"
  let ?S = "CompoundStmt
       [IfStmt (Expr [5] True 1) (ReturnStmt (Some (Expr [] True 1))) None,
        GotoStmt (Label 0 ''L''),
        ExprStmt (Expr [6] True 2),
        LabelStmt (Label 0 ''L'') (ReturnStmt (Some (Expr [7] True 3)))]"
  let ?\<sigma>' = "\<lparr>Heap =
        [Some \<lparr>bb_name = ''entry'', bb_insts = [Op 5, Op 0, CondBr (NotZero (Value 1)) 2 1]\<rparr>,
         Some \<lparr>bb_name = ''ifend'', bb_insts = [Br 4]\<rparr>,
         Some \<lparr>bb_name = ''ifthen'', bb_insts = [Ret (Value 1)]\<rparr>,
         Some \<lparr>bb_name = [], bb_insts = [Br 1]\<rparr>,
         Some \<lparr>bb_name = ''L'', bb_insts = [Op 7, Ret (Value 3)]\<rparr>,
         Some \<lparr>bb_name = [], bb_insts = [Op 6, Br 4]\<rparr>,
         Some \<lparr>bb_name = [], bb_insts = []\<rparr>],
        FnBlocks = [0, 2, 3, 1, 5, 4, 6], InsertBlock = 6,
        LabelMap = [(Label 0 ''L'', 4)], FnIsVoid = False,
        FnRetTy = ValueTy 0, Output = [], NDEBUG = False\<rparr>"
  have ok: "cgf_ok ?\<sigma>"
    by (simp add: cgf_ok_def start_def getBlock_def terminator_last_def)
  have op: "insert_open ?\<sigma>"
    by (simp add: insert_open_def start_def getBlock_def open_block_def)
  have ds: "distinct (labels_of ?S)" by simp
  have pe: "pending (labels_of ?S) ?\<sigma>" by (simp add: pending_def start_def)
  have run: "EmitStmt ?S ?\<sigma> = Inr ?\<sigma>'" by (simp add: lower_defs)
  have mem: "4 \<in> set (FnBlocks ?\<sigma>')" by simp
  from terminator_invariant [OF ok op ds pe run, THEN bspec, OF mem]
  have "\<exists>B. getBlock ?\<sigma>' 4 = Some B \<and> length (filter isTerminator (bb_insts B)) \<le> 1"
    by blast
  then show ?thesis using run by (rule conjI [rotated])
qed

end
